theory Spec2Isabelle
  imports Main "HOL-Library.Word"
begin

section \<open>Data model of \<^verbatim>\<open>pkg/chain_iterator/block_batch_iterator.go\<close>\<close>

text \<open>
  The block batch iterator walks a range of block heights in batches, forwards or
  backwards, and calls a consumer callback once per batch. It talks to three things it
  does not own: the RPC client, the callback and the cancellation context. Each of them
  is modelled as an oracle that is asked with the current time, where the time is the
  number of interactions recorded so far. Every interaction is appended to a trace, so
  that "which lookups were made, and in which order" is a value a theorem can speak about.
\<close>

subsection \<open>Machine integers and big integers\<close>

type_synonym uint64 = "64 word"

text \<open>
  \<^verbatim>\<open>big.Int.Uint64()\<close>: the low 64 bits of the absolute value (the Go documentation
  leaves the result undefined when the value does not fit; this is what the
  implementation returns). \<^verbatim>\<open>new(big.Int).SetUint64(x)\<close> is exact.
\<close>

definition Uint64 :: "int \<Rightarrow> uint64" where
  "Uint64 x = word_of_int \<bar>x\<bar>"

definition SetUint64 :: "uint64 \<Rightarrow> int" where
  "SetUint64 x = uint x"

subsection \<open>Errors\<close>

text \<open>
  Go errors as values. \<open>EOF\<close> is \<^verbatim>\<open>io.EOF\<close>, \<open>ErrContinue\<close> the package's
  \<^verbatim>\<open>errContinue\<close>, \<open>Err msg\<close> an opaque error with the given message,
  \<open>Wrapf prefix e\<close> the result of \<^verbatim>\<open>fmt.Errorf("prefix%w", e)\<close> and
  \<open>Permanent e\<close> the result of \<^verbatim>\<open>backoff.Permanent(e)\<close>.
\<close>

datatype error =
    EOF
  | ErrContinue
  | Err string
  | Wrapf string error
  | Permanent error

text \<open>\<^verbatim>\<open>err.Error()\<close>\<close>

fun Error :: "error \<Rightarrow> string" where
  "Error EOF = ''EOF''"
| "Error ErrContinue = ''continue''"
| "Error (Err s) = s"
| "Error (Wrapf p e) = p @ Error e"
| "Error (Permanent e) = Error e"

text \<open>\<^verbatim>\<open>errors.Is(err, io.EOF)\<close> and \<^verbatim>\<open>errors.Is(err, errContinue)\<close>: the chain of
  wrapped errors is searched.\<close>

fun is_EOF :: "error \<Rightarrow> bool" where
  "is_EOF EOF = True"
| "is_EOF (Wrapf p e) = is_EOF e"
| "is_EOF (Permanent e) = is_EOF e"
| "is_EOF _ = False"

fun is_errContinue :: "error \<Rightarrow> bool" where
  "is_errContinue ErrContinue = True"
| "is_errContinue (Wrapf p e) = is_errContinue e"
| "is_errContinue (Permanent e) = is_errContinue e"
| "is_errContinue _ = False"

text \<open>\<^verbatim>\<open>errors.As(err, &permanent)\<close>: the first permanent error of the chain, and the
  error it carries.\<close>

fun as_Permanent :: "error \<Rightarrow> error option" where
  "as_Permanent (Permanent e) = Some e"
| "as_Permanent (Wrapf p e) = as_Permanent e"
| "as_Permanent _ = None"

text \<open>\<^verbatim>\<open>ethereum.NotFound\<close> and \<^verbatim>\<open>context.Canceled\<close>\<close>

definition NotFound :: error where
  "NotFound = Err ''not found''"

definition Canceled :: error where
  "Canceled = Err ''context canceled''"

subsection \<open>Headers, the RPC client, the context and the callback\<close>

type_synonym hash = nat

text \<open>Of \<^verbatim>\<open>types.Header\<close> the iterator reads the block number (a \<^verbatim>\<open>*big.Int\<close>) and
  the hash.\<close>

record Header =
  Number :: int
  Hash :: hash

text \<open>
  The four operations of \<^verbatim>\<open>rpc.EthClient\<close> the iterator uses. The first argument is
  the time of the call. \<^verbatim>\<open>HeaderByNumber\<close> takes a \<^verbatim>\<open>*big.Int\<close>, where nil asks for
  the latest header. \<^verbatim>\<open>HeaderByHash\<close> returns Go's pair of a header that may be nil
  and an error that may be nil, because the iterator inspects both.
\<close>

record EthClient =
  ChainID :: "nat \<Rightarrow> error + int"
  HeaderByNumber :: "nat \<Rightarrow> int option \<Rightarrow> error + Header"
  HeaderByHash :: "nat \<Rightarrow> hash \<Rightarrow> Header option \<times> error option"
  BlockNumber :: "nat \<Rightarrow> error + uint64"

text \<open>
  A \<^verbatim>\<open>context.Context\<close>: \<^verbatim>\<open>Err()\<close> is nil until the context is cancelled and the same
  error from then on.
\<close>

record Context =
  cancelAt :: "nat option"
  cancelErr :: error

definition ctxErr :: "Context \<Rightarrow> nat \<Rightarrow> error option" where
  "ctxErr c t = (case cancelAt c of
                   None \<Rightarrow> None
                 | Some k \<Rightarrow> if k \<le> t then Some (cancelErr c) else None)"

text \<open>
  What a callback does, as far as the iterator can tell: the calls it makes to the two
  capabilities it is handed (\<^verbatim>\<open>UpdateCurrentFunc\<close>, \<^verbatim>\<open>EndIterFunc\<close>), in order, and the
  error it returns (None for nil). It is asked with the time and the two headers.
\<close>

datatype cb_call = UpdateCurrent "Header option" | EndIter

type_synonym OnBlocksFunc = "nat \<Rightarrow> Header \<Rightarrow> Header \<Rightarrow> cb_call list \<times> error option"

subsection \<open>The trace\<close>

datatype event =
    CallChainID
  | CallHeaderByNumber "int option"
  | CallHeaderByHash hash
  | CallBlockNumber
  | CallOnBlocks Header Header "cb_call list" "error option"
  | CallCtxErr
  | Sleep int

type_synonym trace = "event list"

text \<open>The lookups that go to the chain accessor.\<close>

fun is_network_call :: "event \<Rightarrow> bool" where
  "is_network_call CallChainID = True"
| "is_network_call (CallHeaderByNumber n) = True"
| "is_network_call (CallHeaderByHash h) = True"
| "is_network_call CallBlockNumber = True"
| "is_network_call _ = False"

definition network_calls :: "trace \<Rightarrow> event list" where
  "network_calls tr = filter is_network_call tr"

subsection \<open>The iterator and its configuration\<close>

record BlockBatchIterator =
  ctx :: Context
  client :: EthClient
  chainID :: int
  blocksReadPerEpoch :: uint64
  startHeight :: uint64
  endHeight :: "uint64 option"
  current :: Header
  onBlocks :: OnBlocksFunc
  isEnd :: bool
  reverse :: bool
  reorgRewindDepth :: uint64
  retryInterval :: int

record BlockBatchIteratorConfig =
  Client :: "EthClient option"
  MaxBlocksReadPerEpoch :: "uint64 option"
  StartHeight :: "int option"
  EndHeight :: "int option"
  OnBlocks :: "OnBlocksFunc option"
  Reverse :: bool
  ReorgRewindDepth :: "uint64 option"
  RetryInterval :: "int option"

definition DefaultBlocksReadPerEpoch :: uint64 where
  "DefaultBlocksReadPerEpoch = 1000"

text \<open>12 seconds, in nanoseconds as \<^verbatim>\<open>time.Duration\<close> counts.\<close>

definition DefaultRetryInterval :: int where
  "DefaultRetryInterval = 12 * 1000000000"

section \<open>Construction\<close>

text \<open>
  \<^verbatim>\<open>NewBlockBatchIterator\<close>, check by check in the order of the source. The struct
  literal names six fields; the others start at Go's zero value (\<^verbatim>\<open>isEnd\<close> false,
  \<^verbatim>\<open>reorgRewindDepth\<close> 0), and the statements after the literal set
  \<^verbatim>\<open>current\<close>, \<^verbatim>\<open>blocksReadPerEpoch\<close>, \<^verbatim>\<open>retryInterval\<close> and \<^verbatim>\<open>endHeight\<close>.
  No statement of the constructor reads \<^verbatim>\<open>cfg.ReorgRewindDepth\<close>. The numbers that
  the source formats into its messages are left out of the message texts.
\<close>

definition NewBlockBatchIterator ::
    "Context \<Rightarrow> BlockBatchIteratorConfig \<Rightarrow> trace \<Rightarrow> (error + BlockBatchIterator) \<times> trace" where
  "NewBlockBatchIterator c cfg tr =
     (case Client cfg of
        None \<Rightarrow> (Inl (Err ''invalid RPC client''), tr)
      | Some cl \<Rightarrow>
     (case OnBlocks cfg of
        None \<Rightarrow> (Inl (Err ''invalid callback''), tr)
      | Some cb \<Rightarrow>
     (let tr1 = tr @ [CallChainID] in
      case ChainID cl (length tr) of
        Inl e \<Rightarrow> (Inl (Wrapf ''failed to get chain ID, error: '' e), tr1)
      | Inr cid \<Rightarrow>
     (case StartHeight cfg of
        None \<Rightarrow> (Inl (Err ''invalid start height''), tr1)
      | Some s \<Rightarrow>
     (if (case EndHeight cfg of None \<Rightarrow> False | Some e \<Rightarrow> s > e)
      then (Inl (Err ''start height > end height''), tr1)
      else
     (let tr2 = tr1 @ [CallHeaderByNumber (Some s)] in
      case HeaderByNumber cl (length tr1) (Some s) of
        Inl e \<Rightarrow> (Inl (Wrapf ''failed to get start header, error: '' e), tr2)
      | Inr startHeader \<Rightarrow>
     (if Reverse cfg \<and> EndHeight cfg = None
      then (Inl (Err ''missing end height''), tr2)
      else
     (let tr3 = tr2 @ [CallHeaderByNumber (EndHeight cfg)] in
      case HeaderByNumber cl (length tr2) (EndHeight cfg) of
        Inl e \<Rightarrow> (Inl (Wrapf ''failed to get end header, error: '' e), tr3)
      | Inr endHeader \<Rightarrow>
          (Inr \<lparr> ctx = c,
                 client = cl,
                 chainID = cid,
                 blocksReadPerEpoch =
                   (case MaxBlocksReadPerEpoch cfg of
                      Some b \<Rightarrow> b | None \<Rightarrow> DefaultBlocksReadPerEpoch),
                 startHeight = Uint64 s,
                 endHeight = map_option Uint64 (EndHeight cfg),
                 current = (if Reverse cfg then endHeader else startHeader),
                 onBlocks = cb,
                 isEnd = False,
                 reverse = Reverse cfg,
                 reorgRewindDepth = 0,
                 retryInterval =
                   (case RetryInterval cfg of
                      None \<Rightarrow> DefaultRetryInterval | Some d \<Rightarrow> d) \<rparr>,
           tr3)))))))))"

section \<open>The callback's capabilities\<close>

text \<open>\<^verbatim>\<open>updateCurrent\<close>: a nil header is ignored (with a warning).\<close>

fun updateCurrent :: "BlockBatchIterator \<Rightarrow> Header option \<Rightarrow> BlockBatchIterator" where
  "updateCurrent i None = i"
| "updateCurrent i (Some h) = i\<lparr>current := h\<rparr>"

text \<open>The method \<^verbatim>\<open>end\<close>.\<close>

definition end_iter :: "BlockBatchIterator \<Rightarrow> BlockBatchIterator" where
  "end_iter i = i\<lparr>isEnd := True\<rparr>"

fun apply_cb_call :: "BlockBatchIterator \<Rightarrow> cb_call \<Rightarrow> BlockBatchIterator" where
  "apply_cb_call i (UpdateCurrent h) = updateCurrent i h"
| "apply_cb_call i EndIter = end_iter i"

text \<open>
  \<^verbatim>\<open>i.onBlocks(i.ctx, start, end, i.updateCurrent, i.end)\<close>: the capability calls
  the callback makes take effect on the iterator in order, then the callback returns.
\<close>

definition call_onBlocks ::
    "BlockBatchIterator \<Rightarrow> Header \<Rightarrow> Header \<Rightarrow> trace \<Rightarrow> error option \<times> BlockBatchIterator \<times> trace" where
  "call_onBlocks i s e tr =
     (case onBlocks i (length tr) s e of
        (calls, r) \<Rightarrow> (r, foldl apply_cb_call i calls, tr @ [CallOnBlocks s e calls r]))"

section \<open>Reorg detection and rewind\<close>

definition rewindOnReorgDetected ::
    "BlockBatchIterator \<Rightarrow> trace \<Rightarrow> error option \<times> BlockBatchIterator \<times> trace" where
  "rewindOnReorgDetected i tr =
     (let h = Uint64 (Number (current i));
          newCurrentHeight = (if h \<le> reorgRewindDepth i then 0 else h - reorgRewindDepth i);
          arg = Some (SetUint64 newCurrentHeight);
          tr1 = tr @ [CallHeaderByNumber arg]
      in case HeaderByNumber (client i) (length tr) arg of
           Inl e \<Rightarrow> (Some e, i, tr1)
         | Inr cur \<Rightarrow> (None, i\<lparr>current := cur\<rparr>, tr1))"

text \<open>
  \<^verbatim>\<open>ensureCurrentNotReorged\<close>. An error whose message is not that of
  \<^verbatim>\<open>ethereum.NotFound\<close> is returned; otherwise a header that is not nil means "not
  reorged", and a nil header starts the rewind.
\<close>

definition ensureCurrentNotReorged ::
    "BlockBatchIterator \<Rightarrow> trace \<Rightarrow> error option \<times> BlockBatchIterator \<times> trace" where
  "ensureCurrentNotReorged i tr =
     (let tr1 = tr @ [CallHeaderByHash (Hash (current i))]
      in case HeaderByHash (client i) (length tr) (Hash (current i)) of
           (cur, err) \<Rightarrow>
             (case (case err of None \<Rightarrow> None
                    | Some e \<Rightarrow> if Error e \<noteq> Error NotFound then Some e else None) of
                Some e \<Rightarrow> (Some e, i, tr1)
              | None \<Rightarrow>
                  (case cur of
                     Some h \<Rightarrow> (None, i, tr1)
                   | None \<Rightarrow> rewindOnReorgDetected i tr1)))"

section \<open>Batch boundaries\<close>

text \<open>
  The boundary computation of \<^verbatim>\<open>iter\<close> (the statements between the range check and
  the header lookup): the end height of the batch and whether the epoch is the last one.
  The sum is a \<^verbatim>\<open>uint64\<close> sum and wraps around.
\<close>

definition forwardBoundary :: "uint64 \<Rightarrow> uint64 \<Rightarrow> uint64 \<Rightarrow> uint64 \<times> bool" where
  "forwardBoundary h b destHeight =
     (let endHeight0 = h + b
      in if endHeight0 \<ge> destHeight then (destHeight, True) else (endHeight0, False))"

text \<open>
  The boundary computation of \<^verbatim>\<open>reverseIter\<close>: the start height of the batch, with the
  source's guard against the subtraction going below zero, and whether the epoch is the
  last one.
\<close>

definition reverseBoundary :: "uint64 \<Rightarrow> uint64 \<Rightarrow> uint64 \<Rightarrow> uint64 \<times> bool" where
  "reverseBoundary h b start =
     (let startHeight0 = (if h \<le> b then 0 else h - b)
      in if startHeight0 \<le> start then (start, True) else (startHeight0, False))"

section \<open>One epoch\<close>

text \<open>
  \<^verbatim>\<open>iter\<close>, the forward epoch. Every return of the source carries an error that is
  not nil (\<^verbatim>\<open>io.EOF\<close>, \<^verbatim>\<open>errContinue\<close>, or a failure), so the result is an
  \<open>error\<close>. The sum \<^verbatim>\<open>current + blocksReadPerEpoch\<close> is a \<^verbatim>\<open>uint64\<close> sum and wraps.
\<close>

definition iter :: "BlockBatchIterator \<Rightarrow> trace \<Rightarrow> error \<times> BlockBatchIterator \<times> trace" where
  "iter i tr =
     (case ensureCurrentNotReorged i tr of
        (Some e, i1, tr1) \<Rightarrow>
          (Wrapf ''failed to check whether iterator.current cursor has been reorged: '' e, i1, tr1)
      | (None, i1, tr1) \<Rightarrow>
     (case (case endHeight i1 of
              Some d \<Rightarrow> (Inr d, tr1)
            | None \<Rightarrow> (BlockNumber (client i1) (length tr1), tr1 @ [CallBlockNumber])) of
        (Inl e, tr2) \<Rightarrow> (e, i1, tr2)
      | (Inr destHeight, tr2) \<Rightarrow>
     (if Uint64 (Number (current i1)) \<ge> destHeight then (EOF, i1, tr2)
      else
     (case forwardBoundary (Uint64 (Number (current i1))) (blocksReadPerEpoch i1) destHeight of
        (endHeight1, isLastEpoch) \<Rightarrow>
     (let arg = Some (SetUint64 endHeight1);
          tr3 = tr2 @ [CallHeaderByNumber arg]
      in case HeaderByNumber (client i1) (length tr2) arg of
           Inl e \<Rightarrow> (e, i1, tr3)
         | Inr endHeader \<Rightarrow>
     (case call_onBlocks i1 (current i1) endHeader tr3 of
        (Some e, i2, tr4) \<Rightarrow> (e, i2, tr4)
      | (None, i2, tr4) \<Rightarrow>
     (if isEnd i2 then (EOF, i2, tr4)
      else
     (let i3 = i2\<lparr>current := endHeader\<rparr>
      in if \<not> isLastEpoch \<and> \<not> isEnd i3 then (ErrContinue, i3, tr4)
         else (EOF, i3, tr4)))))))))"

text \<open>\<^verbatim>\<open>reverseIter\<close>, the reverse epoch.\<close>

definition reverseIter :: "BlockBatchIterator \<Rightarrow> trace \<Rightarrow> error \<times> BlockBatchIterator \<times> trace" where
  "reverseIter i tr =
     (case ensureCurrentNotReorged i tr of
        (Some e, i1, tr1) \<Rightarrow>
          (Wrapf ''failed to check whether iterator.current cursor has been reorged: '' e, i1, tr1)
      | (None, i1, tr1) \<Rightarrow>
     (if Uint64 (Number (current i1)) \<le> startHeight i1 then (EOF, i1, tr1)
      else
     (case reverseBoundary (Uint64 (Number (current i1))) (blocksReadPerEpoch i1) (startHeight i1) of
        (startHeight1, isLastEpoch) \<Rightarrow>
     (let arg = Some (SetUint64 startHeight1);
          tr2 = tr1 @ [CallHeaderByNumber arg]
      in case HeaderByNumber (client i1) (length tr1) arg of
           Inl e \<Rightarrow> (e, i1, tr2)
         | Inr startHeader \<Rightarrow>
     (case call_onBlocks i1 startHeader (current i1) tr2 of
        (Some e, i2, tr3) \<Rightarrow> (e, i2, tr3)
      | (None, i2, tr3) \<Rightarrow>
     (let i3 = i2\<lparr>current := startHeader\<rparr>
      in if \<not> isLastEpoch \<and> \<not> isEnd i3 then (ErrContinue, i3, tr3)
         else (EOF, i3, tr3)))))))"

section \<open>The driver\<close>

text \<open>The type of \<^verbatim>\<open>iter\<close> and \<^verbatim>\<open>reverseIter\<close>, as \<^verbatim>\<open>Iter\<close> passes them around.\<close>

type_synonym epochFunc = "BlockBatchIterator \<Rightarrow> trace \<Rightarrow> error \<times> BlockBatchIterator \<times> trace"

text \<open>
  The closure \<^verbatim>\<open>iterOp\<close> of \<^verbatim>\<open>Iter\<close>: an unbounded \<^verbatim>\<open>for\<close> loop. The first argument
  bounds the number of rounds; None means that the bound was reached before the loop
  returned. Inside, None is the nil error.
\<close>

fun iterOp ::
    "nat \<Rightarrow> epochFunc \<Rightarrow>
     BlockBatchIterator \<Rightarrow> trace \<Rightarrow> (error option \<times> BlockBatchIterator \<times> trace) option" where
  "iterOp 0 iterFunc i tr = None"
| "iterOp (Suc n) iterFunc i tr =
     (if ctxErr (ctx i) (length tr) \<noteq> None then Some (None, i, tr @ [CallCtxErr])
      else case iterFunc i (tr @ [CallCtxErr]) of
             (err, i1, tr1) \<Rightarrow>
               if is_EOF err then Some (None, i1, tr1)
               else if is_errContinue err then iterOp n iterFunc i1 tr1
               else Some (Some err, i1, tr1))"

text \<open>
  \<^verbatim>\<open>backoff.Retry(iterOp, backoff.NewConstantBackOff(i.retryInterval))\<close> of the
  library \<^verbatim>\<open>github.com/cenkalti/backoff/v4\<close>, which is a dependency and not a part of this
  repository; this is its documented behaviour. The operation is run again until it
  returns nil. A permanent error ends the retries and the error it carries is returned.
  A constant back-off always answers with its interval, and the retries end with the
  operation's error when that answer is the constant \<^verbatim>\<open>backoff.Stop\<close>, which is -1.
  Otherwise the retry sleeps for the interval. The first argument bounds the number of
  attempts, the second the rounds of each attempt, the third is the interval.
\<close>

definition Stop :: int where
  "Stop = - 1"

fun Retry ::
    "nat \<Rightarrow> nat \<Rightarrow> int \<Rightarrow> epochFunc \<Rightarrow>
     BlockBatchIterator \<Rightarrow> trace \<Rightarrow> (error option \<times> BlockBatchIterator \<times> trace) option" where
  "Retry 0 n interval iterFunc i tr = None"
| "Retry (Suc m) n interval iterFunc i tr =
     (case iterOp n iterFunc i tr of
        None \<Rightarrow> None
      | Some (None, i1, tr1) \<Rightarrow> Some (None, i1, tr1)
      | Some (Some err, i1, tr1) \<Rightarrow>
          (case as_Permanent err of
             Some inner \<Rightarrow> Some (Some inner, i1, tr1)
           | None \<Rightarrow>
               if interval = Stop then Some (Some err, i1, tr1)
               else Retry m n interval iterFunc i1 (tr1 @ [Sleep interval])))"

text \<open>
  \<^verbatim>\<open>Iter\<close>. Its first statements choose the epoch function by the direction; the choice
  is made once, before the loop.
\<close>

definition iterFunc_of :: "BlockBatchIterator \<Rightarrow> epochFunc" where
  "iterFunc_of i = (if reverse i then reverseIter else iter)"

definition Iter ::
    "nat \<Rightarrow> nat \<Rightarrow> BlockBatchIterator \<Rightarrow> trace \<Rightarrow> (error option \<times> BlockBatchIterator \<times> trace) option" where
  "Iter m n i tr =
     (case Retry m n (retryInterval i) (iterFunc_of i) i tr of
        None \<Rightarrow> None
      | Some (Some err, i1, tr1) \<Rightarrow> Some (Some err, i1, tr1)
      | Some (None, i1, tr1) \<Rightarrow> Some (ctxErr (ctx i1) (length tr1), i1, tr1 @ [CallCtxErr]))"

section \<open>Observations on the callback and on the trace\<close>

text \<open>
  The definitions of this section are not functions of the source. They name what the
  properties below speak about: what the callback asked for, which batches it was given,
  and where the driver's loop stands.
\<close>

text \<open>The header of the last call to the update-cursor capability that passed a header,
  if there was one.\<close>

fun last_update :: "cb_call list \<Rightarrow> Header option" where
  "last_update [] = None"
| "last_update (UpdateCurrent (Some h) # cs) =
     (case last_update cs of None \<Rightarrow> Some h | Some h' \<Rightarrow> Some h')"
| "last_update (c # cs) = last_update cs"

text \<open>The batches handed to the callback, as pairs of the heights the iterator reads off
  the start header and the end header, in the order of the calls.\<close>

fun batch_heights :: "trace \<Rightarrow> (nat \<times> nat) list" where
  "batch_heights [] = []"
| "batch_heights (CallOnBlocks s e calls r # tr) =
     (unat (Uint64 (Number s)), unat (Uint64 (Number e))) # batch_heights tr"
| "batch_heights (ev # tr) = batch_heights tr"

text \<open>
  The batches of a forward walk from height \<open>c\<close> to height \<open>E\<close> in steps of \<open>B\<close>, over the
  natural numbers: the list the forward run is compared with.
\<close>

function fwd_batches :: "nat \<Rightarrow> nat \<Rightarrow> nat \<Rightarrow> (nat \<times> nat) list" where
  "fwd_batches c E B =
     (if E \<le> c \<or> B = 0 then []
      else if E \<le> c + B then [(c, E)]
      else (c, c + B) # fwd_batches (c + B) E B)"
  by pat_completeness auto
termination
  by (relation "measure (\<lambda>(c, E, B). E - c)") auto
declare fwd_batches.simps [simp del]

text \<open>
  The two nested loops of \<^verbatim>\<open>Iter\<close> (the retries, and the rounds of one attempt) pass
  through the top of the inner loop again and again. \<open>loop_state k\<close> is the iterator and
  the trace at that point after \<open>k\<close> rounds that did not end the driver: a round that
  signalled continue, or a round that failed and was followed by the back-off sleep.
  \<open>last_round\<close> is the result of a round that ends the driver: cancellation seen at the
  top of the loop, range-exhausted, or an error on which the retry gives up. The lemmas
  \<open>rounds_Retry\<close> and \<open>Retry_rounds\<close> below show that \<^verbatim>\<open>backoff.Retry\<close> over
  \<^verbatim>\<open>iterOp\<close> returns exactly what these two describe.
\<close>

fun loop_state ::
    "nat \<Rightarrow> int \<Rightarrow> epochFunc \<Rightarrow> BlockBatchIterator \<Rightarrow> trace \<Rightarrow> (BlockBatchIterator \<times> trace) option" where
  "loop_state 0 interval iterFunc i tr = Some (i, tr)"
| "loop_state (Suc k) interval iterFunc i tr =
     (if ctxErr (ctx i) (length tr) \<noteq> None then None
      else case iterFunc i (tr @ [CallCtxErr]) of
             (err, i1, tr1) \<Rightarrow>
               if is_EOF err then None
               else if is_errContinue err then loop_state k interval iterFunc i1 tr1
               else if as_Permanent err \<noteq> None \<or> interval = Stop then None
               else loop_state k interval iterFunc i1 (tr1 @ [Sleep interval]))"

definition last_round ::
    "int \<Rightarrow> epochFunc \<Rightarrow> BlockBatchIterator \<Rightarrow> trace \<Rightarrow> (error option \<times> BlockBatchIterator \<times> trace) option" where
  "last_round interval iterFunc i tr =
     (if ctxErr (ctx i) (length tr) \<noteq> None then Some (None, i, tr @ [CallCtxErr])
      else case iterFunc i (tr @ [CallCtxErr]) of
             (err, i1, tr1) \<Rightarrow>
               if is_EOF err then Some (None, i1, tr1)
               else if is_errContinue err then None
               else (case as_Permanent err of
                       Some inner \<Rightarrow> Some (Some inner, i1, tr1)
                     | None \<Rightarrow> if interval = Stop then Some (Some err, i1, tr1) else None))"

section \<open>Example configurations\<close>

text \<open>
  A chain whose header at height \<open>n\<close> has hash \<open>n\<close>, a fork of it, clients over them, some
  callbacks, and the scenario of the specification: start 100, end 250, batches of 100.
\<close>

definition header_at :: "int \<Rightarrow> Header" where
  "header_at n = \<lparr>Number = n, Hash = nat n\<rparr>"

definition fork_header_at :: "int \<Rightarrow> Header" where
  "fork_header_at n = \<lparr>Number = n, Hash = nat n + 1000000\<rparr>"

definition stable_client :: EthClient where
  "stable_client =
     \<lparr> ChainID = (\<lambda>t. Inr 167),
       HeaderByNumber = (\<lambda>t n. case n of Some k \<Rightarrow> Inr (header_at k) | None \<Rightarrow> Inr (header_at 1000)),
       HeaderByHash = (\<lambda>t h. (Some (header_at (int h)), None)),
       BlockNumber = (\<lambda>t. Inr 1000) \<rparr>"

definition forked_client :: EthClient where
  "forked_client =
     \<lparr> ChainID = (\<lambda>t. Inr 167),
       HeaderByNumber = (\<lambda>t n. case n of Some k \<Rightarrow> Inr (fork_header_at k)
                                 | None \<Rightarrow> Inr (fork_header_at 1000)),
       HeaderByHash = (\<lambda>t h. (None, Some NotFound)),
       BlockNumber = (\<lambda>t. Inr 1000) \<rparr>"


definition flaky_client :: EthClient where
  "flaky_client = stable_client\<lparr>HeaderByNumber :=
     (\<lambda>t n. case n of Some k \<Rightarrow> Inr (header_at k) | None \<Rightarrow> Inl (Err ''timeout''))\<rparr>"

definition background :: Context where
  "background = \<lparr>cancelAt = None, cancelErr = Canceled\<rparr>"

definition cancelled_at :: "nat \<Rightarrow> Context" where
  "cancelled_at k = \<lparr>cancelAt = Some k, cancelErr = Canceled\<rparr>"

definition cb_ok :: OnBlocksFunc where
  "cb_ok = (\<lambda>t s e. ([], None))"

definition cb_update_ok :: OnBlocksFunc where
  "cb_update_ok = (\<lambda>t s e. ([UpdateCurrent (Some (header_at 150))], None))"

definition cb_update_fail :: OnBlocksFunc where
  "cb_update_fail = (\<lambda>t s e. ([UpdateCurrent (Some (header_at 150))], Some (Err ''boom'')))"

definition cb_fail :: OnBlocksFunc where
  "cb_fail = (\<lambda>t s e. ([], Some (Err ''boom'')))"

definition cb_end_fail_once :: OnBlocksFunc where
  "cb_end_fail_once = (\<lambda>t s e. if t < 5 then ([EndIter], Some (Err ''boom'')) else ([], None))"

definition cb_end_second :: OnBlocksFunc where
  "cb_end_second = (\<lambda>t s e. if t < 4 then ([], None) else ([EndIter], None))"

definition cb_permanent :: OnBlocksFunc where
  "cb_permanent = (\<lambda>t s e. ([], Some (Permanent (Err ''boom''))))"

definition example_cfg :: BlockBatchIteratorConfig where
  "example_cfg =
     \<lparr> Client = Some stable_client, MaxBlocksReadPerEpoch = Some 100,
       StartHeight = Some 100, EndHeight = Some 250, OnBlocks = Some cb_ok,
       Reverse = False, ReorgRewindDepth = Some 20, RetryInterval = None \<rparr>"

definition example_iter :: BlockBatchIterator where
  "example_iter =
     \<lparr> ctx = background, client = stable_client, chainID = 167,
       blocksReadPerEpoch = 100, startHeight = 100, endHeight = Some 250,
       current = header_at 100, onBlocks = cb_ok, isEnd = False, reverse = False,
       reorgRewindDepth = 0, retryInterval = DefaultRetryInterval \<rparr>"


definition long_iter :: BlockBatchIterator where
  "long_iter = example_iter\<lparr>endHeight := Some 1000, onBlocks := cb_end_second\<rparr>"

definition reverse_iter :: BlockBatchIterator where
  "reverse_iter = example_iter\<lparr>reverse := True, startHeight := 0, endHeight := Some 50,
                                 blocksReadPerEpoch := 1000, current := header_at 50\<rparr>"

definition zero_batch_iter :: BlockBatchIterator where
  "zero_batch_iter = example_iter\<lparr>blocksReadPerEpoch := 0\<rparr>"

definition wrapping_iter :: BlockBatchIterator where
  "wrapping_iter = example_iter\<lparr>blocksReadPerEpoch := 18446744073709551615, startHeight := 1,
                                  endHeight := Some 3, current := header_at 1\<rparr>"

section \<open>Evaluating the examples\<close>

lemma header_at_simps:
  "Number (header_at n) = n" "Hash (header_at n) = nat n"
  by (simp_all add: header_at_def)

lemma fork_header_at_simps:
  "Number (fork_header_at n) = n" "Hash (fork_header_at n) = nat n + 1000000"
  by (simp_all add: fork_header_at_def)

lemma stable_client_simps:
  "ChainID stable_client t = Inr 167"
  "HeaderByNumber stable_client t (Some k) = Inr (header_at k)"
  "HeaderByNumber stable_client t None = Inr (header_at 1000)"
  "HeaderByHash stable_client t h = (Some (header_at (int h)), None)"
  "BlockNumber stable_client t = Inr 1000"
  by (simp_all add: stable_client_def)

lemma forked_client_simps:
  "ChainID forked_client t = Inr 167"
  "HeaderByNumber forked_client t (Some k) = Inr (fork_header_at k)"
  "HeaderByNumber forked_client t None = Inr (fork_header_at 1000)"
  "HeaderByHash forked_client t h = (None, Some NotFound)"
  "BlockNumber forked_client t = Inr 1000"
  by (simp_all add: forked_client_def)


lemma flaky_client_simps:
  "ChainID flaky_client t = Inr 167"
  "HeaderByNumber flaky_client t (Some k) = Inr (header_at k)"
  "HeaderByNumber flaky_client t None = Inl (Err ''timeout'')"
  by (simp_all add: flaky_client_def stable_client_def)

lemma cb_simps:
  "cb_ok t s e = ([], None)"
  "cb_update_ok t s e = ([UpdateCurrent (Some (header_at 150))], None)"
  "cb_update_fail t s e = ([UpdateCurrent (Some (header_at 150))], Some (Err ''boom''))"
  "cb_fail t s e = ([], Some (Err ''boom''))"
  "cb_end_fail_once t s e = (if t < 5 then ([EndIter], Some (Err ''boom'')) else ([], None))"
  "cb_end_second t s e = (if t < 4 then ([], None) else ([EndIter], None))"
  "cb_permanent t s e = ([], Some (Permanent (Err ''boom'')))"
  by (simp_all add: cb_ok_def cb_update_ok_def cb_update_fail_def cb_fail_def
      cb_end_fail_once_def cb_end_second_def cb_permanent_def)

lemma ctx_simps:
  "ctxErr background t = None"
  "ctxErr (cancelled_at k) t = (if k \<le> t then Some Canceled else None)"
  by (simp_all add: ctxErr_def background_def cancelled_at_def)

lemmas ex_defs = example_cfg_def example_iter_def header_at_simps stable_client_simps
  background_def cb_ok_def

lemmas epoch_defs = iter_def reverseIter_def ensureCurrentNotReorged_def rewindOnReorgDetected_def
  call_onBlocks_def forwardBoundary_def reverseBoundary_def Uint64_def SetUint64_def NotFound_def

lemmas ex_simps = example_iter_def header_at_simps fork_header_at_simps stable_client_simps
  forked_client_simps cb_simps

lemmas driver_simps = Iter_def iterFunc_of_def Stop_def DefaultRetryInterval_def ctx_simps

section \<open>Properties of the construction\<close>

text \<open>
  Whatever the configuration says, a constructed iterator has rewind depth 0: the
  constructor never copies \<^verbatim>\<open>cfg.ReorgRewindDepth\<close>.
\<close>

lemma NewBlockBatchIterator_reorgRewindDepth:
  "NewBlockBatchIterator c cfg tr = (Inr it, tr') \<Longrightarrow> reorgRewindDepth it = 0"
  by (auto simp: NewBlockBatchIterator_def Let_def split: option.splits sum.splits if_splits)

text \<open>
  Claim C2 (rewind by the configured depth). The claim asks that an iterator constructed
  with rewind depth \<open>d\<close> rewinds, when the hash of its cursor is not found, to the header at
  height \<open>max 0 (current - d)\<close>. The code does not: with a configured depth of 20 and the
  cursor at height 100, the constructed iterator has depth 0 and the rewind fetches the
  header at height 100, not the one at height 80.
\<close>

theorem C2_configured_rewind_depth_is_dropped:
  "NewBlockBatchIterator background example_cfg [] =
     (Inr example_iter, [CallChainID, CallHeaderByNumber (Some 100), CallHeaderByNumber (Some 250)])
   \<and> ReorgRewindDepth example_cfg = Some 20
   \<and> reorgRewindDepth example_iter = 0
   \<and> rewindOnReorgDetected example_iter [] =
       (None, example_iter, [CallHeaderByNumber (Some 100)])"
  by (simp add: NewBlockBatchIterator_def rewindOnReorgDetected_def ex_defs Uint64_def SetUint64_def
      DefaultRetryInterval_def)

text \<open>
  Claim C4, as stated (reverse mode without an end height fails before any network call),
  is false: with the accessor and the callback present, the chain id and the start
  header are fetched first.
\<close>

theorem C4_counterexample:
  "NewBlockBatchIterator background (example_cfg\<lparr>Reverse := True, EndHeight := None\<rparr>) [] =
     (Inl (Err ''missing end height''), [CallChainID, CallHeaderByNumber (Some 100)])
   \<and> network_calls [CallChainID, CallHeaderByNumber (Some 100)] \<noteq> []"
  by (simp add: NewBlockBatchIterator_def ex_defs network_calls_def)

text \<open>
  Claim C4, amended. With reverse mode and no end height, construction always fails and
  never asks for the end header. It fails with the missing-end-height error exactly when
  the accessor and the callback are present, the chain id lookup succeeds, the start
  height is present and the start header lookup succeeds; these two lookups are then the
  network calls that were made.
\<close>

theorem C4_reverse_without_end_height_fails:
  assumes "Reverse cfg" and "EndHeight cfg = None"
  shows "(\<exists>e. fst (NewBlockBatchIterator c cfg tr) = Inl e)
       \<and> CallHeaderByNumber None \<notin> set (drop (length tr) (snd (NewBlockBatchIterator c cfg tr)))
       \<and> (fst (NewBlockBatchIterator c cfg tr) = Inl (Err ''missing end height'')
            \<longleftrightarrow> (\<exists>cl cb cid s h. Client cfg = Some cl \<and> OnBlocks cfg = Some cb
                   \<and> ChainID cl (length tr) = Inr cid \<and> StartHeight cfg = Some s
                   \<and> HeaderByNumber cl (Suc (length tr)) (Some s) = Inr h))
       \<and> (fst (NewBlockBatchIterator c cfg tr) = Inl (Err ''missing end height'')
            \<longrightarrow> snd (NewBlockBatchIterator c cfg tr)
                  = tr @ [CallChainID, CallHeaderByNumber (StartHeight cfg)])"
  using assms
  by (auto simp: NewBlockBatchIterator_def Let_def split: option.splits sum.splits)

text \<open>The amended claim C4 at the example configuration, reversed and with no end height.\<close>

theorem C4_witness:
  "Reverse (example_cfg\<lparr>Reverse := True, EndHeight := None\<rparr>)
   \<and> EndHeight (example_cfg\<lparr>Reverse := True, EndHeight := None\<rparr>) = None
   \<and> fst (NewBlockBatchIterator background (example_cfg\<lparr>Reverse := True, EndHeight := None\<rparr>) [])
       = Inl (Err ''missing end height'')
   \<and> snd (NewBlockBatchIterator background (example_cfg\<lparr>Reverse := True, EndHeight := None\<rparr>) [])
       = [CallChainID, CallHeaderByNumber (Some 100)]"
  using C4_reverse_without_end_height_fails
    [of "example_cfg\<lparr>Reverse := True, EndHeight := None\<rparr>" background "[]"]
  by (simp add: example_cfg_def stable_client_simps)

text \<open>
  Claim C10 (the end header lookup of a forward construction). When a forward
  construction has passed its checks and fetched the start header, it looks up one more
  header, at the configured end height or, with none configured, the latest one. If that
  lookup fails the construction fails with its error; if it succeeds, the header it
  returned is dropped and the cursor is the start header.
\<close>

theorem C10_forward_end_header_lookup:
  assumes "\<not> Reverse cfg" and "Client cfg = Some cl" and "OnBlocks cfg = Some cb"
      and "ChainID cl (length tr) = Inr cid" and "StartHeight cfg = Some s"
      and "\<forall>e. EndHeight cfg = Some e \<longrightarrow> s \<le> e"
      and "HeaderByNumber cl (Suc (length tr)) (Some s) = Inr startHeader"
  shows "snd (NewBlockBatchIterator c cfg tr)
           = tr @ [CallChainID, CallHeaderByNumber (Some s), CallHeaderByNumber (EndHeight cfg)]
       \<and> (case HeaderByNumber cl (Suc (Suc (length tr))) (EndHeight cfg) of
            Inl e \<Rightarrow> fst (NewBlockBatchIterator c cfg tr)
                       = Inl (Wrapf ''failed to get end header, error: '' e)
          | Inr endHeader \<Rightarrow>
              (\<exists>it. fst (NewBlockBatchIterator c cfg tr) = Inr it \<and> current it = startHeader))"
  using assms
  by (auto simp: NewBlockBatchIterator_def Let_def split: option.splits sum.splits)

text \<open>Claim C10 at a client whose lookup of the latest header fails.\<close>

theorem C10_witness:
  "\<not> Reverse (example_cfg\<lparr>Client := Some flaky_client, EndHeight := None\<rparr>)
   \<and> NewBlockBatchIterator background (example_cfg\<lparr>Client := Some flaky_client, EndHeight := None\<rparr>) []
       = (Inl (Wrapf ''failed to get end header, error: '' (Err ''timeout'')),
          [CallChainID, CallHeaderByNumber (Some 100), CallHeaderByNumber None])"
  using C10_forward_end_header_lookup
    [of "example_cfg\<lparr>Client := Some flaky_client, EndHeight := None\<rparr>" flaky_client cb_ok
        "[]" 167 100 "header_at 100" background]
  by (simp add: example_cfg_def flaky_client_simps prod_eq_iff)

section \<open>Properties of the callback's capabilities\<close>

text \<open>After the callback's calls, the cursor is the last header it passed, the end latch is
  set if it asked for the end, and nothing else has changed.\<close>

lemma current_foldl_apply:
  "current (foldl apply_cb_call i cs) = (case last_update cs of None \<Rightarrow> current i | Some h \<Rightarrow> h)"
proof (induction cs arbitrary: i)
  case Nil
  show ?case by simp
next
  case (Cons c cs)
  show ?case
  proof (cases c)
    case (UpdateCurrent ho)
    then show ?thesis
      by (cases ho) (simp_all add: Cons.IH split: option.splits)
  next
    case EndIter
    then show ?thesis by (simp add: Cons.IH end_iter_def split: option.splits)
  qed
qed

lemma isEnd_foldl_apply:
  "isEnd (foldl apply_cb_call i cs) = (isEnd i \<or> EndIter \<in> set cs)"
proof (induction cs arbitrary: i)
  case Nil
  show ?case by simp
next
  case (Cons c cs)
  show ?case
  proof (cases c)
    case (UpdateCurrent ho)
    then show ?thesis by (cases ho) (simp_all add: Cons.IH)
  next
    case EndIter
    then show ?thesis by (simp add: Cons.IH end_iter_def)
  qed
qed

lemma apply_cb_call_frame:
  "ctx (apply_cb_call i c) = ctx i"
  "client (apply_cb_call i c) = client i"
  "blocksReadPerEpoch (apply_cb_call i c) = blocksReadPerEpoch i"
  "startHeight (apply_cb_call i c) = startHeight i"
  "endHeight (apply_cb_call i c) = endHeight i"
  "onBlocks (apply_cb_call i c) = onBlocks i"
  "reverse (apply_cb_call i c) = reverse i"
  "reorgRewindDepth (apply_cb_call i c) = reorgRewindDepth i"
  "retryInterval (apply_cb_call i c) = retryInterval i"
proof -
  have *: "\<And>ho. ctx (updateCurrent i ho) = ctx i \<and> client (updateCurrent i ho) = client i
      \<and> blocksReadPerEpoch (updateCurrent i ho) = blocksReadPerEpoch i
      \<and> startHeight (updateCurrent i ho) = startHeight i
      \<and> endHeight (updateCurrent i ho) = endHeight i
      \<and> onBlocks (updateCurrent i ho) = onBlocks i
      \<and> reverse (updateCurrent i ho) = reverse i
      \<and> reorgRewindDepth (updateCurrent i ho) = reorgRewindDepth i
      \<and> retryInterval (updateCurrent i ho) = retryInterval i"
    subgoal for ho by (cases ho) simp_all
    done
  show "ctx (apply_cb_call i c) = ctx i"
    "client (apply_cb_call i c) = client i"
    "blocksReadPerEpoch (apply_cb_call i c) = blocksReadPerEpoch i"
    "startHeight (apply_cb_call i c) = startHeight i"
    "endHeight (apply_cb_call i c) = endHeight i"
    "onBlocks (apply_cb_call i c) = onBlocks i"
    "reverse (apply_cb_call i c) = reverse i"
    "reorgRewindDepth (apply_cb_call i c) = reorgRewindDepth i"
    "retryInterval (apply_cb_call i c) = retryInterval i"
    by (cases c; simp add: * end_iter_def)+
qed

lemma foldl_apply_frame:
  "ctx (foldl apply_cb_call i cs) = ctx i"
  "client (foldl apply_cb_call i cs) = client i"
  "blocksReadPerEpoch (foldl apply_cb_call i cs) = blocksReadPerEpoch i"
  "startHeight (foldl apply_cb_call i cs) = startHeight i"
  "endHeight (foldl apply_cb_call i cs) = endHeight i"
  "onBlocks (foldl apply_cb_call i cs) = onBlocks i"
  "reverse (foldl apply_cb_call i cs) = reverse i"
  "reorgRewindDepth (foldl apply_cb_call i cs) = reorgRewindDepth i"
  "retryInterval (foldl apply_cb_call i cs) = retryInterval i"
  by (induction cs arbitrary: i; simp add: apply_cb_call_frame)+

section \<open>Properties of the reorg check\<close>

lemma ensureCurrentNotReorged_found:
  assumes "HeaderByHash (client i) (length tr) (Hash (current i)) = (Some hdr, None)"
  shows "ensureCurrentNotReorged i tr = (None, i, tr @ [CallHeaderByHash (Hash (current i))])"
  using assms by (simp add: ensureCurrentNotReorged_def)


lemma rewind_trace_last:
  "rewindOnReorgDetected i tr = (r, i1, tr1) \<Longrightarrow> \<exists>a. tr1 = tr @ [CallHeaderByNumber a]"
  by (auto simp: rewindOnReorgDetected_def Let_def split: sum.splits)

lemma ensure_trace_last:
  "ensureCurrentNotReorged i tr = (r, i1, tr1) \<Longrightarrow>
     tr1 = tr @ [CallHeaderByHash (Hash (current i))]
     \<or> (\<exists>a. tr1 = tr @ [CallHeaderByHash (Hash (current i)), CallHeaderByNumber a])"
  by (auto simp: ensureCurrentNotReorged_def Let_def split: prod.splits option.splits if_splits
      dest!: rewind_trace_last)

lemma ensure_not_callback:
  "ensureCurrentNotReorged i tr = (r, i1, tr0 @ [CallOnBlocks s e calls ret]) \<Longrightarrow> False"
  by (auto dest!: ensure_trace_last)

lemma rewind_frame:
  assumes "rewindOnReorgDetected i tr = (r, i1, tr1)"
  shows "blocksReadPerEpoch i1 = blocksReadPerEpoch i \<and> startHeight i1 = startHeight i
       \<and> endHeight i1 = endHeight i \<and> isEnd i1 = isEnd i \<and> ctx i1 = ctx i
       \<and> client i1 = client i \<and> onBlocks i1 = onBlocks i \<and> reverse i1 = reverse i
       \<and> reorgRewindDepth i1 = reorgRewindDepth i \<and> retryInterval i1 = retryInterval i"
  using assms by (auto simp: rewindOnReorgDetected_def Let_def split: sum.splits)

lemma ensure_frame:
  assumes "ensureCurrentNotReorged i tr = (r, i1, tr1)"
  shows "blocksReadPerEpoch i1 = blocksReadPerEpoch i \<and> startHeight i1 = startHeight i
       \<and> endHeight i1 = endHeight i \<and> isEnd i1 = isEnd i \<and> ctx i1 = ctx i
       \<and> client i1 = client i \<and> onBlocks i1 = onBlocks i \<and> reverse i1 = reverse i
       \<and> reorgRewindDepth i1 = reorgRewindDepth i \<and> retryInterval i1 = retryInterval i"
  using assms
  by (auto simp: ensureCurrentNotReorged_def Let_def split: prod.splits option.splits if_splits
      dest: rewind_frame)

section \<open>Properties of one epoch\<close>

text \<open>
  An epoch whose trace ends with a call of the callback went through the reorg check,
  the range check and the boundary lookup; what it returns and how it leaves the iterator
  follows from what the callback did.
\<close>

lemma iter_callback:
  assumes "iter i tr = (r, i', tr0 @ [CallOnBlocks s e calls ret])"
  shows "\<exists>i1 tr1. ensureCurrentNotReorged i tr = (None, i1, tr1) \<and> s = current i1
           \<and> (case ret of
                 Some err \<Rightarrow> r = err \<and> i' = foldl apply_cb_call i1 calls
               | None \<Rightarrow>
                   if isEnd (foldl apply_cb_call i1 calls)
                   then r = EOF \<and> i' = foldl apply_cb_call i1 calls
                   else i' = (foldl apply_cb_call i1 calls)\<lparr>current := e\<rparr>
                      \<and> (r = EOF \<or> r = ErrContinue))"
  using assms
  apply (simp add: iter_def Let_def call_onBlocks_def split: prod.splits option.splits sum.splits if_splits)
  apply (auto dest: ensure_not_callback)
  done

lemma reverseIter_callback:
  assumes "reverseIter i tr = (r, i', tr0 @ [CallOnBlocks s e calls ret])"
  shows "\<exists>i1 tr1. ensureCurrentNotReorged i tr = (None, i1, tr1) \<and> e = current i1
           \<and> (case ret of
                 Some err \<Rightarrow> r = err \<and> i' = foldl apply_cb_call i1 calls
               | None \<Rightarrow>
                   i' = (foldl apply_cb_call i1 calls)\<lparr>current := s\<rparr>
                   \<and> (if isEnd (foldl apply_cb_call i1 calls) then r = EOF
                      else (r = EOF \<or> r = ErrContinue)))"
  using assms
  apply (simp add: reverseIter_def Let_def call_onBlocks_def split: prod.splits option.splits sum.splits if_splits)
  apply (auto dest: ensure_not_callback)
  done



lemma iter_frame:
  assumes "iter i tr = (r, i', tr')"
  shows "ctx i' = ctx i \<and> client i' = client i \<and> blocksReadPerEpoch i' = blocksReadPerEpoch i
       \<and> startHeight i' = startHeight i \<and> endHeight i' = endHeight i \<and> onBlocks i' = onBlocks i
       \<and> reverse i' = reverse i \<and> reorgRewindDepth i' = reorgRewindDepth i
       \<and> retryInterval i' = retryInterval i"
proof -
  obtain e1 i1 tr1 where chk: "ensureCurrentNotReorged i tr = (e1, i1, tr1)"
    by (cases "ensureCurrentNotReorged i tr")
  note fr = ensure_frame [OF chk]
  from assms chk have "i' = i1 \<or> (\<exists>cs. i' = foldl apply_cb_call i1 cs)
      \<or> (\<exists>cs h. i' = (foldl apply_cb_call i1 cs)\<lparr>current := h\<rparr>)"
    by (auto simp: iter_def Let_def call_onBlocks_def
        split: prod.splits option.splits sum.splits if_splits)
  then show ?thesis
    using fr by (auto simp: foldl_apply_frame)
qed

lemma reverseIter_frame:
  assumes "reverseIter i tr = (r, i', tr')"
  shows "ctx i' = ctx i \<and> client i' = client i \<and> blocksReadPerEpoch i' = blocksReadPerEpoch i
       \<and> startHeight i' = startHeight i \<and> endHeight i' = endHeight i \<and> onBlocks i' = onBlocks i
       \<and> reverse i' = reverse i \<and> reorgRewindDepth i' = reorgRewindDepth i
       \<and> retryInterval i' = retryInterval i"
proof -
  obtain e1 i1 tr1 where chk: "ensureCurrentNotReorged i tr = (e1, i1, tr1)"
    by (cases "ensureCurrentNotReorged i tr")
  note fr = ensure_frame [OF chk]
  from assms chk have "i' = i1 \<or> (\<exists>cs. i' = foldl apply_cb_call i1 cs)
      \<or> (\<exists>cs h. i' = (foldl apply_cb_call i1 cs)\<lparr>current := h\<rparr>)"
    by (auto simp: reverseIter_def Let_def call_onBlocks_def
        split: prod.splits option.splits sum.splits if_splits)
  then show ?thesis
    using fr by (auto simp: foldl_apply_frame)
qed

subsection \<open>An epoch on an exhausted range\<close>

text \<open>
  Claim C5, as stated (an epoch on an exhausted range signals range-exhausted without any
  network call), is false: every epoch starts with the reorg check, which looks the
  cursor's hash up.
\<close>

theorem C5_counterexample:
  "iter (example_iter\<lparr>current := header_at 250\<rparr>) []
     = (EOF, example_iter\<lparr>current := header_at 250\<rparr>, [CallHeaderByHash 250])
   \<and> network_calls [CallHeaderByHash 250] = [CallHeaderByHash 250]"
  by (simp add: iter_def ensureCurrentNotReorged_def ex_defs Uint64_def network_calls_def)

text \<open>
  Claim C5, amended. On an exhausted range (forward: the cursor is at or past the
  destination; reverse: the cursor is at or below the start height), an epoch whose reorg
  check finds the cursor's header signals range-exhausted and leaves the iterator as it
  was. The lookups it makes are the hash lookup of the reorg check and, in forward mode
  without a configured end height, the block number lookup that gives the destination.
\<close>

theorem C5_exhausted_epoch:
  assumes found: "HeaderByHash (client i) (length tr) (Hash (current i)) = (Some hdr, None)"
      and exhausted:
        "case (reverse i, endHeight i) of
           (True, _) \<Rightarrow> Uint64 (Number (current i)) \<le> startHeight i
         | (False, Some d) \<Rightarrow> d \<le> Uint64 (Number (current i))
         | (False, None) \<Rightarrow>
             (\<exists>d. BlockNumber (client i) (Suc (length tr)) = Inr d \<and> d \<le> Uint64 (Number (current i)))"
  shows "(if reverse i then reverseIter i tr else iter i tr)
           = (EOF, i, tr @ CallHeaderByHash (Hash (current i))
                        # (if \<not> reverse i \<and> endHeight i = None then [CallBlockNumber] else []))"
  using exhausted
  by (auto simp: iter_def reverseIter_def ensureCurrentNotReorged_found [OF found]
           split: option.splits bool.splits)

text \<open>The amended claim C5 at the example iterator with its cursor at the end height.\<close>

theorem C5_witness:
  "HeaderByHash (client (example_iter\<lparr>current := header_at 250\<rparr>)) (length ([] :: trace))
       (Hash (current (example_iter\<lparr>current := header_at 250\<rparr>))) = (Some (header_at 250), None)
   \<and> iter (example_iter\<lparr>current := header_at 250\<rparr>) []
       = (EOF, example_iter\<lparr>current := header_at 250\<rparr>, [CallHeaderByHash 250])"
  using C5_exhausted_epoch [of "example_iter\<lparr>current := header_at 250\<rparr>" "[]" "header_at 250"]
  by (simp add: ex_defs Uint64_def)

subsection \<open>The cursor after the callback\<close>

text \<open>
  Claim C1, as stated (a header \<open>H\<close> passed to update-cursor is the cursor of the next
  epoch), is false: when the callback returns nil, the forward epoch assigns the end
  header of the batch after the callback has returned. Here the callback passes the
  header at height 150 and the cursor ends at height 200.
\<close>

theorem C1_counterexample:
  "iter (example_iter\<lparr>onBlocks := cb_update_ok\<rparr>) []
     = (ErrContinue, example_iter\<lparr>onBlocks := cb_update_ok, current := header_at 200\<rparr>,
        [CallHeaderByHash 100, CallHeaderByNumber (Some 200),
         CallOnBlocks (header_at 100) (header_at 200) [UpdateCurrent (Some (header_at 150))] None])
   \<and> header_at 200 \<noteq> header_at 150"
  by (simp add: epoch_defs ex_simps header_at_def)

text \<open>
  Claim C1, amended. Let \<open>H\<close> be the last header the callback passed to update-cursor
  in an epoch. If the callback returns an error, or, in forward mode, if end-iteration has
  been requested, the cursor after the epoch is \<open>H\<close>. If the callback returns nil (and, in
  forward mode, end-iteration has not been requested), the cursor after the epoch is the
  boundary header of the batch: the end header in forward mode, the start header in
  reverse mode.
\<close>

theorem C1_cursor_override:
  assumes "(if reverse i then reverseIter i tr else iter i tr)
             = (r, i', tr0 @ [CallOnBlocks s e calls ret])"
      and "last_update calls = Some H"
  shows "current i' = (if ret \<noteq> None \<or> (\<not> reverse i \<and> isEnd i') then H
                       else if reverse i then s else e)"
proof (cases "reverse i")
  case True
  with assms(1) have "reverseIter i tr = (r, i', tr0 @ [CallOnBlocks s e calls ret])" by simp
  from reverseIter_callback [OF this] obtain i1 tr1 where
    body: "case ret of
             Some err \<Rightarrow> r = err \<and> i' = foldl apply_cb_call i1 calls
           | None \<Rightarrow> i' = (foldl apply_cb_call i1 calls)\<lparr>current := s\<rparr>
                   \<and> (if isEnd (foldl apply_cb_call i1 calls) then r = EOF
                      else (r = EOF \<or> r = ErrContinue))"
    by blast
  show ?thesis
  proof (cases ret)
    case None
    with body have "i' = (foldl apply_cb_call i1 calls)\<lparr>current := s\<rparr>" by simp
    with None True show ?thesis by simp
  next
    case (Some err)
    with body have "i' = foldl apply_cb_call i1 calls" by simp
    with Some assms(2) show ?thesis by (simp add: current_foldl_apply)
  qed
next
  case False
  with assms(1) have "iter i tr = (r, i', tr0 @ [CallOnBlocks s e calls ret])" by simp
  from iter_callback [OF this] obtain i1 tr1 where
    body: "case ret of
             Some err \<Rightarrow> r = err \<and> i' = foldl apply_cb_call i1 calls
           | None \<Rightarrow>
               if isEnd (foldl apply_cb_call i1 calls)
               then r = EOF \<and> i' = foldl apply_cb_call i1 calls
               else i' = (foldl apply_cb_call i1 calls)\<lparr>current := e\<rparr>
                  \<and> (r = EOF \<or> r = ErrContinue)"
    by blast
  show ?thesis
  proof (cases ret)
    case None
    show ?thesis
    proof (cases "isEnd (foldl apply_cb_call i1 calls)")
      case True
      with body None have "i' = foldl apply_cb_call i1 calls" by simp
      with True None False assms(2) show ?thesis by (simp add: current_foldl_apply)
    next
      case nend: False
      with body None have "i' = (foldl apply_cb_call i1 calls)\<lparr>current := e\<rparr>" by simp
      with nend None False show ?thesis by simp
    qed
  next
    case (Some err)
    with body have "i' = foldl apply_cb_call i1 calls" by simp
    with Some assms(2) show ?thesis by (simp add: current_foldl_apply)
  qed
qed

text \<open>The amended claim C1 at a callback that passes the header at height 150 and fails.\<close>

theorem C1_witness:
  "iter (example_iter\<lparr>onBlocks := cb_update_fail\<rparr>) []
     = (Err ''boom'', example_iter\<lparr>onBlocks := cb_update_fail, current := header_at 150\<rparr>,
        [CallHeaderByHash 100, CallHeaderByNumber (Some 200)]
        @ [CallOnBlocks (header_at 100) (header_at 200) [UpdateCurrent (Some (header_at 150))]
            (Some (Err ''boom''))])
   \<and> last_update [UpdateCurrent (Some (header_at 150))] = Some (header_at 150)
   \<and> current (example_iter\<lparr>onBlocks := cb_update_fail, current := header_at 150\<rparr>) = header_at 150"
proof -
  have run: "(if reverse (example_iter\<lparr>onBlocks := cb_update_fail\<rparr>)
              then reverseIter (example_iter\<lparr>onBlocks := cb_update_fail\<rparr>) []
              else iter (example_iter\<lparr>onBlocks := cb_update_fail\<rparr>) [])
     = (Err ''boom'', example_iter\<lparr>onBlocks := cb_update_fail, current := header_at 150\<rparr>,
        [CallHeaderByHash 100, CallHeaderByNumber (Some 200)]
        @ [CallOnBlocks (header_at 100) (header_at 200) [UpdateCurrent (Some (header_at 150))]
            (Some (Err ''boom''))])"
    by (simp add: epoch_defs ex_simps)
  have upd: "last_update [UpdateCurrent (Some (header_at 150))] = Some (header_at 150)"
    by simp
  from C1_cursor_override [OF run upd] run upd show ?thesis
    by (simp add: example_iter_def)
qed




subsection \<open>The boundary of a reverse epoch\<close>

lemma reverse_candidate_nat:
  fixes h B :: uint64
  shows "unat (if h \<le> B then 0 else h - B) = unat h - unat B"
proof (cases "h \<le> B")
  case True
  then show ?thesis by (simp add: word_le_nat_alt)
next
  case False
  then have "B \<le> h" by simp
  then have "unat (h - B) = unat h - unat B" by (rule unat_sub)
  with False show ?thesis by simp
qed

lemma reverseIter_lookup:
  assumes check: "ensureCurrentNotReorged i tr = (None, i1, tr1)"
      and range: "startHeight i1 < Uint64 (Number (current i1))"
  shows "\<exists>rest. snd (snd (reverseIter i tr)) =
           tr1 @ CallHeaderByNumber (Some (SetUint64 (fst (reverseBoundary
                   (Uint64 (Number (current i1))) (blocksReadPerEpoch i1) (startHeight i1))))) # rest"
  using range
  by (simp add: reverseIter_def check Let_def call_onBlocks_def not_le [symmetric]
           split: prod.splits sum.splits option.splits)

lemma reverseIter_result:
  assumes "reverseIter i tr = (r, i', tr0 @ [CallOnBlocks sH eH calls None])"
  shows "r = (if snd (reverseBoundary (Uint64 (Number eH)) (blocksReadPerEpoch i) (startHeight i))
                 \<or> isEnd i' then EOF else ErrContinue)"
  using assms
  apply (simp add: reverseIter_def Let_def call_onBlocks_def split: prod.splits option.splits sum.splits if_splits)
  apply (auto dest: ensure_not_callback ensure_frame)
  done

text \<open>
  Claim C8 (the start of a reverse batch). In a reverse epoch that has passed the reorg
  check and the range check, with cursor height \<open>h\<close>, batch size \<open>B\<close> and start height \<open>s\<close>,
  the candidate start is \<open>h - B\<close> over the natural numbers, where the difference is 0 when
  \<open>h \<le> B\<close>: no wrap-around. When the candidate is at most \<open>s\<close>, the header that is looked up
  is the one at \<open>s\<close> and the epoch is the last one: if its callback returns nil the epoch
  signals range-exhausted. Otherwise the header at the candidate is looked up.
\<close>

theorem C8_reverse_candidate_and_clamp:
  assumes check: "ensureCurrentNotReorged i tr = (None, i1, tr1)"
      and range: "startHeight i1 < Uint64 (Number (current i1))"
  shows "let h = Uint64 (Number (current i1)); B = blocksReadPerEpoch i1; s = startHeight i1;
             candidate = (if h \<le> B then 0 else h - B);
             final = (candidate \<le> s);
             boundary = (if final then s else candidate)
         in unat candidate = unat h - unat B
          \<and> (B < h \<longrightarrow> unat candidate + unat B = unat h)
          \<and> (h \<le> B \<longrightarrow> candidate = 0)
          \<and> (\<exists>rest. snd (snd (reverseIter i tr))
                       = tr1 @ CallHeaderByNumber (Some (SetUint64 boundary)) # rest)
          \<and> (\<forall>r i' tr0 sH calls.
                reverseIter i tr = (r, i', tr0 @ [CallOnBlocks sH (current i1) calls None])
                \<longrightarrow> r = (if final \<or> isEnd i' then EOF else ErrContinue))"
proof -
  define h where "h = Uint64 (Number (current i1))"
  define B where "B = blocksReadPerEpoch i1"
  define s where "s = startHeight i1"
  define candidate where "candidate = (if h \<le> B then 0 else h - B)"
  have rb: "reverseBoundary h B s = (if candidate \<le> s then s else candidate, candidate \<le> s)"
    by (simp add: reverseBoundary_def candidate_def)
  have c1: "unat candidate = unat h - unat B"
    unfolding candidate_def by (rule reverse_candidate_nat)
  have c2: "unat candidate + unat B = unat h" if "B < h"
  proof -
    from that have "unat B \<le> unat h" by (simp add: word_less_nat_alt)
    with c1 show ?thesis by simp
  qed
  have c3: "candidate = 0" if "h \<le> B"
    using that by (simp add: candidate_def)
  from reverseIter_lookup [OF check range] have c4:
    "\<exists>rest. snd (snd (reverseIter i tr))
        = tr1 @ CallHeaderByNumber (Some (SetUint64 (if candidate \<le> s then s else candidate))) # rest"
    by (simp add: rb h_def [symmetric] B_def [symmetric] s_def [symmetric])
  have fr: "blocksReadPerEpoch i = B" "startHeight i = s"
    using ensure_frame [OF check] by (simp_all add: B_def s_def)
  have c5: "r = (if candidate \<le> s \<or> isEnd i' then EOF else ErrContinue)"
    if "reverseIter i tr = (r, i', tr0 @ [CallOnBlocks sH (current i1) calls None])"
    for r i' tr0 sH calls
    using reverseIter_result [OF that] by (simp add: fr h_def [symmetric] rb)
  from c1 c2 c3 c4 c5 show ?thesis
    unfolding Let_def h_def [symmetric] B_def [symmetric] s_def [symmetric] candidate_def [symmetric]
    by blast
qed

text \<open>Claim C8 in reverse mode with start 0, cursor at 50 and batches of 1000, where the
  candidate is 0 and not a wrapped difference; and with start 100, cursor at 1000 and
  batches of 100, where the candidate is 900.\<close>

theorem C8_witness:
  "ensureCurrentNotReorged reverse_iter [] = (None, reverse_iter, [CallHeaderByHash 50])
   \<and> startHeight reverse_iter < Uint64 (Number (current reverse_iter))
   \<and> Uint64 (Number (current reverse_iter)) \<le> blocksReadPerEpoch reverse_iter
   \<and> reverseIter reverse_iter []
       = (EOF, reverse_iter\<lparr>current := header_at 0\<rparr>,
          [CallHeaderByHash 50, CallHeaderByNumber (Some 0),
           CallOnBlocks (header_at 0) (header_at 50) [] None])
   \<and> ensureCurrentNotReorged (long_iter\<lparr>reverse := True, current := header_at 1000\<rparr>) []
       = (None, long_iter\<lparr>reverse := True, current := header_at 1000\<rparr>, [CallHeaderByHash 1000])
   \<and> reverseIter (long_iter\<lparr>reverse := True, current := header_at 1000\<rparr>) []
       = (ErrContinue, long_iter\<lparr>reverse := True, current := header_at 900\<rparr>,
          [CallHeaderByHash 1000, CallHeaderByNumber (Some 900),
           CallOnBlocks (header_at 900) (header_at 1000) [] None])"
proof -
  let ?l = "long_iter\<lparr>reverse := True, current := header_at 1000\<rparr>"
  have chk: "ensureCurrentNotReorged reverse_iter [] = (None, reverse_iter, [CallHeaderByHash 50])"
    by (simp add: reverse_iter_def epoch_defs ex_simps)
  have range: "startHeight reverse_iter < Uint64 (Number (current reverse_iter))"
    by (simp add: reverse_iter_def ex_simps Uint64_def)
  have run: "reverseIter reverse_iter []
       = (EOF, reverse_iter\<lparr>current := header_at 0\<rparr>,
          [CallHeaderByHash 50, CallHeaderByNumber (Some 0),
           CallOnBlocks (header_at 0) (header_at 50) [] None])"
    by (simp add: reverse_iter_def epoch_defs ex_simps)
  have lchk: "ensureCurrentNotReorged ?l [] = (None, ?l, [CallHeaderByHash 1000])"
    by (simp add: long_iter_def epoch_defs ex_simps)
  have lrange: "startHeight ?l < Uint64 (Number (current ?l))"
    by (simp add: long_iter_def ex_simps Uint64_def word_less_nat_alt)
  have lrun: "reverseIter ?l []
       = (ErrContinue, long_iter\<lparr>reverse := True, current := header_at 900\<rparr>,
          [CallHeaderByHash 1000, CallHeaderByNumber (Some 900),
           CallOnBlocks (header_at 900) (header_at 1000) [] None])"
    by (simp add: long_iter_def epoch_defs ex_simps word_le_nat_alt)
  from C8_reverse_candidate_and_clamp [OF chk range] C8_reverse_candidate_and_clamp [OF lchk lrange]
    chk range run lchk lrun
  show ?thesis
    by (simp add: reverse_iter_def ex_simps Uint64_def)
qed

section \<open>Properties of the driver\<close>

subsection \<open>More rounds never change a result\<close>

lemma iterOp_mono:
  "iterOp n f i tr = Some res \<Longrightarrow> iterOp (n + k) f i tr = Some res"
proof (induction n arbitrary: i tr)
  case 0
  then show ?case by simp
next
  case (Suc n)
  then show ?case
    by (auto split: if_splits prod.splits)
qed

lemma Retry_Suc:
  "iterOp n f i tr = None \<Longrightarrow> Retry (Suc m) n d f i tr = None"
  "iterOp n f i tr = Some (None, i1, tr1) \<Longrightarrow> Retry (Suc m) n d f i tr = Some (None, i1, tr1)"
  "iterOp n f i tr = Some (Some err, i1, tr1) \<Longrightarrow> as_Permanent err = Some inner \<Longrightarrow>
     Retry (Suc m) n d f i tr = Some (Some inner, i1, tr1)"
  "iterOp n f i tr = Some (Some err, i1, tr1) \<Longrightarrow> as_Permanent err = None \<Longrightarrow> d = Stop \<Longrightarrow>
     Retry (Suc m) n d f i tr = Some (Some err, i1, tr1)"
  "iterOp n f i tr = Some (Some err, i1, tr1) \<Longrightarrow> as_Permanent err = None \<Longrightarrow> d \<noteq> Stop \<Longrightarrow>
     Retry (Suc m) n d f i tr = Retry m n d f i1 (tr1 @ [Sleep d])"
  by simp_all

lemma Retry_Some_iterOp:
  assumes "Retry (Suc m) n d f i tr = Some res"
  obtains e1 i1 tr1 where "iterOp n f i tr = Some (e1, i1, tr1)"
  using assms by (cases "iterOp n f i tr") auto

lemma Retry_mono:
  "Retry m n d f i tr = Some res \<Longrightarrow> Retry (m + k) (n + j) d f i tr = Some res"
proof (induction m arbitrary: i tr)
  case 0
  then show ?case by simp
next
  case (Suc m)
  from Suc.prems obtain e1 i1 tr1 where op1: "iterOp n f i tr = Some (e1, i1, tr1)"
    by (rule Retry_Some_iterOp)
  then have op2: "iterOp (n + j) f i tr = Some (e1, i1, tr1)" by (rule iterOp_mono)
  have goal: "Retry (Suc (m + k)) (n + j) d f i tr = Some res"
  proof (cases e1)
    case None
    with Suc.prems op1 have "res = (None, i1, tr1)" by (simp add: Retry_Suc(2))
    with op2 None show ?thesis by (simp add: Retry_Suc(2))
  next
    case (Some err)
    note e1 = this
    show ?thesis
    proof (cases "as_Permanent err")
      case (Some inner)
      with Suc.prems op1 e1 have "res = (Some inner, i1, tr1)" by (simp add: Retry_Suc(3))
      with op2 e1 Some show ?thesis by (simp add: Retry_Suc(3))
    next
      case None
      show ?thesis
      proof (cases "d = Stop")
        case True
        with Suc.prems op1 e1 None have "res = (Some err, i1, tr1)" by (simp add: Retry_Suc(4))
        with op2 e1 None True show ?thesis by (simp add: Retry_Suc(4))
      next
        case False
        from Suc.prems have "Retry m n d f i1 (tr1 @ [Sleep d]) = Some res"
          by (simp only: Retry_Suc(5) [OF op1 [unfolded e1] None False])
        then have "Retry (m + k) (n + j) d f i1 (tr1 @ [Sleep d]) = Some res" by (rule Suc.IH)
        then show ?thesis
          by (simp only: Retry_Suc(5) [OF op2 [unfolded e1] None False])
      qed
    qed
  qed
  then show ?case by simp
qed

subsection \<open>The nested loops, round by round\<close>

lemma loop_state_add:
  "loop_state k1 d f i tr = Some (i1, tr1) \<Longrightarrow>
     loop_state (k1 + k2) d f i tr = loop_state k2 d f i1 tr1"
proof (induction k1 arbitrary: i tr)
  case 0
  then show ?case by simp
next
  case (Suc k1)
  then show ?case
    by (auto split: if_splits prod.splits)
qed

lemma last_round_Retry:
  "last_round d f i tr = Some res \<Longrightarrow> Retry (Suc 0) (Suc 0) d f i tr = Some res"
  by (auto simp: last_round_def split: if_splits prod.splits option.splits)

lemma rounds_Retry:
  "loop_state k d f i tr = Some (i1, tr1) \<Longrightarrow> last_round d f i1 tr1 = Some res \<Longrightarrow>
     Retry (Suc k) (Suc k) d f i tr = Some res"
proof (induction k arbitrary: i tr)
  case 0
  then show ?case by (simp add: last_round_Retry del: Retry.simps iterOp.simps)
next
  case (Suc k)
  from Suc.prems(1) have live: "ctxErr (ctx i) (length tr) = None"
    by (simp split: if_splits)
  obtain err i2 tr2 where ep: "f i (tr @ [CallCtxErr]) = (err, i2, tr2)"
    by (cases "f i (tr @ [CallCtxErr])")
  from Suc.prems(1) live ep have neof: "\<not> is_EOF err"
    by (simp split: if_splits)
  show ?case
  proof (cases "is_errContinue err")
    case True
    with Suc.prems(1) live ep neof have "loop_state k d f i2 tr2 = Some (i1, tr1)" by simp
    from Suc.IH [OF this Suc.prems(2)] have r: "Retry (Suc k) (Suc k) d f i2 tr2 = Some res" .
    have op: "iterOp (Suc (Suc k)) f i tr = iterOp (Suc k) f i2 tr2"
      using live ep neof True by simp
    from r obtain e1 i3 tr3 where r1: "iterOp (Suc k) f i2 tr2 = Some (e1, i3, tr3)"
      by (rule Retry_Some_iterOp)
    with op have r2: "iterOp (Suc (Suc k)) f i tr = Some (e1, i3, tr3)" by simp
    show ?thesis
    proof (cases e1)
      case None
      with r r1 have "res = (None, i3, tr3)" by (simp add: Retry_Suc(2) del: iterOp.simps)
      with r2 None show ?thesis by (simp add: Retry_Suc(2) del: iterOp.simps)
    next
      case (Some err1)
      note e1 = this
      show ?thesis
      proof (cases "as_Permanent err1")
        case (Some inner)
        with r r1 e1 have "res = (Some inner, i3, tr3)"
          by (simp add: Retry_Suc(3) del: iterOp.simps)
        with r2 e1 Some show ?thesis by (simp add: Retry_Suc(3) del: iterOp.simps)
      next
        case None
        show ?thesis
        proof (cases "d = Stop")
          case True
          with r r1 e1 None have "res = (Some err1, i3, tr3)"
            by (simp add: Retry_Suc(4) del: iterOp.simps)
          with r2 e1 None True show ?thesis by (simp add: Retry_Suc(4) del: iterOp.simps)
        next
          case False
          from r have "Retry k (Suc k) d f i3 (tr3 @ [Sleep d]) = Some res"
            by (simp only: Retry_Suc(5) [OF r1 [unfolded e1] None False])
          from Retry_mono [OF this, of 1 1]
          have "Retry (Suc k) (Suc (Suc k)) d f i3 (tr3 @ [Sleep d]) = Some res" by simp
          then show ?thesis
            by (simp only: Retry_Suc(5) [OF r2 [unfolded e1] None False])
        qed
      qed
    qed
  next
    case False
    with Suc.prems(1) live ep neof have np: "as_Permanent err = None" and ns: "d \<noteq> Stop"
      and st: "loop_state k d f i2 (tr2 @ [Sleep d]) = Some (i1, tr1)"
      by (simp_all split: if_splits)
    from Suc.IH [OF st Suc.prems(2)]
    have "Retry (Suc k) (Suc k) d f i2 (tr2 @ [Sleep d]) = Some res" .
    from Retry_mono [OF this, of 0 1]
    have r: "Retry (Suc k) (Suc (Suc k)) d f i2 (tr2 @ [Sleep d]) = Some res" by simp
    have op: "iterOp (Suc (Suc k)) f i tr = Some (Some err, i2, tr2)"
      using live ep neof False by simp
    show ?thesis
      using r by (simp only: Retry_Suc(5) [OF op np ns])
  qed
qed

lemma iterOp_rounds:
  "iterOp n f i tr = Some res \<Longrightarrow>
     \<exists>k i1 tr1. loop_state k d f i tr = Some (i1, tr1) \<and> iterOp (Suc 0) f i1 tr1 = Some res"
proof (induction n arbitrary: i tr)
  case 0
  then show ?case by simp
next
  case (Suc n)
  show ?case
  proof (cases "ctxErr (ctx i) (length tr) = None")
    case False
    with Suc.prems have "loop_state 0 d f i tr = Some (i, tr) \<and> iterOp (Suc 0) f i tr = Some res"
      by auto
    then show ?thesis by blast
  next
    case True
    obtain err i2 tr2 where ep: "f i (tr @ [CallCtxErr]) = (err, i2, tr2)"
      by (cases "f i (tr @ [CallCtxErr])")
    show ?thesis
    proof (cases "\<not> is_EOF err \<and> is_errContinue err")
      case False
      with Suc.prems True ep
      have "loop_state 0 d f i tr = Some (i, tr) \<and> iterOp (Suc 0) f i tr = Some res"
        by auto
      then show ?thesis by blast
    next
      case cont: True
      with Suc.prems True ep have "iterOp n f i2 tr2 = Some res" by simp
      from Suc.IH [OF this] obtain k i1 tr1 where
        "loop_state k d f i2 tr2 = Some (i1, tr1)" "iterOp (Suc 0) f i1 tr1 = Some res"
        by blast
      with True ep cont
      have "loop_state (Suc k) d f i tr = Some (i1, tr1) \<and> iterOp (Suc 0) f i1 tr1 = Some res"
        by simp
      then show ?thesis by blast
    qed
  qed
qed

lemma iterOp_one_nil:
  "iterOp (Suc 0) f i tr = Some (None, i2, tr2) \<Longrightarrow> last_round d f i tr = Some (None, i2, tr2)"
  by (auto simp: last_round_def split: if_splits prod.splits)

lemma iterOp_one_err:
  assumes "iterOp (Suc 0) f i tr = Some (Some err, i2, tr2)"
  shows "ctxErr (ctx i) (length tr) = None \<and> f i (tr @ [CallCtxErr]) = (err, i2, tr2)
       \<and> \<not> is_EOF err \<and> \<not> is_errContinue err"
  using assms by (auto split: if_splits prod.splits)

lemma Retry_rounds:
  "Retry m n d f i tr = Some res \<Longrightarrow>
     \<exists>k i1 tr1. loop_state k d f i tr = Some (i1, tr1) \<and> last_round d f i1 tr1 = Some res"
proof (induction m arbitrary: i tr)
  case 0
  then show ?case by simp
next
  case (Suc m)
  from Suc.prems obtain e1 i2 tr2 where op1: "iterOp n f i tr = Some (e1, i2, tr2)"
    by (rule Retry_Some_iterOp)
  from iterOp_rounds [OF op1, of d] obtain k i1 tr1 where
    st: "loop_state k d f i tr = Some (i1, tr1)"
    and one: "iterOp (Suc 0) f i1 tr1 = Some (e1, i2, tr2)"
    by blast
  show ?case
  proof (cases e1)
    case None
    with Suc.prems op1 have res: "res = (None, i2, tr2)" by (simp add: Retry_Suc(2))
    from one None have "last_round d f i1 tr1 = Some (None, i2, tr2)"
      by (simp only: iterOp_one_nil)
    with st res show ?thesis by blast
  next
    case (Some err)
    note e1 = this
    from iterOp_one_err [OF one [unfolded e1]] have
      live: "ctxErr (ctx i1) (length tr1) = None"
      and ep: "f i1 (tr1 @ [CallCtxErr]) = (err, i2, tr2)"
      and ne: "\<not> is_EOF err" "\<not> is_errContinue err"
      by simp_all
    show ?thesis
    proof (cases "as_Permanent err")
      case (Some inner)
      with Suc.prems op1 e1 have "res = (Some inner, i2, tr2)" by (simp add: Retry_Suc(3))
      moreover from live ep ne Some have "last_round d f i1 tr1 = Some (Some inner, i2, tr2)"
        by (simp add: last_round_def)
      ultimately show ?thesis using st by blast
    next
      case None
      show ?thesis
      proof (cases "d = Stop")
        case True
        with Suc.prems op1 e1 None have "res = (Some err, i2, tr2)" by (simp add: Retry_Suc(4))
        moreover from live ep ne None True have "last_round d f i1 tr1 = Some (Some err, i2, tr2)"
          by (simp add: last_round_def)
        ultimately show ?thesis using st by blast
      next
        case False
        from Suc.prems have "Retry m n d f i2 (tr2 @ [Sleep d]) = Some res"
          by (simp only: Retry_Suc(5) [OF op1 [unfolded e1] None False])
        from Suc.IH [OF this] obtain k2 i3 tr3 where
          st2: "loop_state k2 d f i2 (tr2 @ [Sleep d]) = Some (i3, tr3)"
          and lr: "last_round d f i3 tr3 = Some res"
          by blast
        from live ep ne None False st2
        have "loop_state (Suc k2) d f i1 tr1 = Some (i3, tr3)" by simp
        with loop_state_add [OF st, of "Suc k2"]
        have "loop_state (k + Suc k2) d f i tr = Some (i3, tr3)" by simp
        with lr show ?thesis by blast
      qed
    qed
  qed
qed

subsection \<open>The context stays the same\<close>

lemma ctxErr_mono:
  "ctxErr c t = Some e \<Longrightarrow> t \<le> t' \<Longrightarrow> ctxErr c t' = Some e"
  by (auto simp: ctxErr_def split: option.splits if_splits)

lemma iterFunc_of_ctx:
  "iterFunc_of i0 i tr = (r, i', tr') \<Longrightarrow> ctx i' = ctx i"
  by (auto simp: iterFunc_of_def dest: iter_frame reverseIter_frame split: if_splits)

lemma loop_state_ctx:
  "loop_state k d (iterFunc_of i0) i tr = Some (i1, tr1) \<Longrightarrow> ctx i1 = ctx i"
proof (induction k arbitrary: i tr)
  case 0
  then show ?case by simp
next
  case (Suc k)
  obtain err i2 tr2 where ep: "iterFunc_of i0 i (tr @ [CallCtxErr]) = (err, i2, tr2)"
    by (cases "iterFunc_of i0 i (tr @ [CallCtxErr])")
  from iterFunc_of_ctx [OF ep] have c2: "ctx i2 = ctx i" .
  from Suc.prems ep have "loop_state k d (iterFunc_of i0) i2 tr2 = Some (i1, tr1)
      \<or> loop_state k d (iterFunc_of i0) i2 (tr2 @ [Sleep d]) = Some (i1, tr1)"
    by (auto split: if_splits)
  then show ?case using Suc.IH c2 by auto
qed

lemma last_round_ctx:
  "last_round d (iterFunc_of i0) i tr = Some (e, i', tr') \<Longrightarrow> ctx i' = ctx i"
  by (auto simp: last_round_def split: if_splits prod.splits option.splits dest: iterFunc_of_ctx)

lemma Iter_rounds:
  assumes st: "loop_state k (retryInterval i0) (iterFunc_of i0) i0 tr0 = Some (i, tr)"
      and lr: "last_round (retryInterval i0) (iterFunc_of i0) i tr = Some (e, i', tr')"
  shows "Iter (Suc k) (Suc k) i0 tr0 =
           Some (case e of
                   Some err \<Rightarrow> (Some err, i', tr')
                 | None \<Rightarrow> (ctxErr (ctx i0) (length tr'), i', tr' @ [CallCtxErr]))"
proof -
  from rounds_Retry [OF st lr]
  have r: "Retry (Suc k) (Suc k) (retryInterval i0) (iterFunc_of i0) i0 tr0 = Some (e, i', tr')" .
  have "ctx i' = ctx i0"
    using loop_state_ctx [OF st] last_round_ctx [OF lr] by simp
  with r show ?thesis
    by (cases e) (simp_all add: Iter_def del: Retry.simps)
qed

subsection \<open>Ending the iteration from the callback\<close>

text \<open>
  Claim C6, as stated (when the callback asks for the end in epoch \<open>N\<close>, that epoch signals
  range-exhausted and no epoch \<open>N + 1\<close> follows), is false when the callback also returns
  an error: the epoch returns the error, the driver sleeps and runs another epoch, with
  its boundary lookup. Here the callback asks for the end and fails in the first epoch,
  and succeeds in the second.
\<close>

theorem C6_counterexample:
  "Iter (Suc (Suc 0)) (Suc 0) (example_iter\<lparr>onBlocks := cb_end_fail_once\<rparr>) []
     = Some (None, example_iter\<lparr>onBlocks := cb_end_fail_once, isEnd := True\<rparr>,
         [CallCtxErr, CallHeaderByHash 100, CallHeaderByNumber (Some 200),
          CallOnBlocks (header_at 100) (header_at 200) [EndIter] (Some (Err ''boom'')),
          Sleep 12000000000,
          CallCtxErr, CallHeaderByHash 100, CallHeaderByNumber (Some 200),
          CallOnBlocks (header_at 100) (header_at 200) [] None,
          CallCtxErr])"
  by (simp add: driver_simps epoch_defs ex_simps end_iter_def)

text \<open>
  Claim C6, amended. Whenever the driver (forward or reverse) is at the top of its loop,
  the context is not cancelled, and the callback of the epoch that follows asks for the
  end and returns nil, then that epoch signals range-exhausted, whether or not it was the
  last batch of the range; \<^verbatim>\<open>Iter\<close> returns, the only interaction after the callback is
  the final look at the context, and the value returned is the context's error: nil
  unless a cancellation is pending.
\<close>

theorem C6_end_iteration_honoured:
  assumes reach: "loop_state k (retryInterval i0) (iterFunc_of i0) i0 tr0 = Some (i, tr)"
      and live: "ctxErr (ctx i) (length tr) = None"
      and epoch: "iterFunc_of i0 i (tr @ [CallCtxErr])
                    = (r, i', tr1 @ [CallOnBlocks s e calls None])"
      and ended: "EndIter \<in> set calls"
  shows "r = EOF \<and> isEnd i'
       \<and> Iter (Suc k) (Suc k) i0 tr0 =
           Some (ctxErr (ctx i0) (Suc (length tr1)), i',
                 tr1 @ [CallOnBlocks s e calls None, CallCtxErr])"
proof -
  have r: "r = EOF \<and> isEnd i'"
  proof (cases "reverse i0")
    case True
    with epoch have "reverseIter i (tr @ [CallCtxErr]) = (r, i', tr1 @ [CallOnBlocks s e calls None])"
      by (simp add: iterFunc_of_def)
    from reverseIter_callback [OF this] ended show ?thesis
      by (auto simp: isEnd_foldl_apply)
  next
    case False
    with epoch have "iter i (tr @ [CallCtxErr]) = (r, i', tr1 @ [CallOnBlocks s e calls None])"
      by (simp add: iterFunc_of_def)
    from iter_callback [OF this] ended show ?thesis
      by (auto simp: isEnd_foldl_apply)
  qed
  with live epoch have "last_round (retryInterval i0) (iterFunc_of i0) i tr
      = Some (None, i', tr1 @ [CallOnBlocks s e calls None])"
    by (simp add: last_round_def)
  from Iter_rounds [OF reach this] r show ?thesis by simp
qed

text \<open>The amended claim C6 at a range from 100 to 1000 whose callback asks for the end in
  the second epoch.\<close>

theorem C6_witness:
  "loop_state (Suc 0) (retryInterval long_iter) (iterFunc_of long_iter) long_iter []
     = Some (long_iter\<lparr>current := header_at 200\<rparr>,
             [CallCtxErr, CallHeaderByHash 100, CallHeaderByNumber (Some 200),
              CallOnBlocks (header_at 100) (header_at 200) [] None])
   \<and> Iter (Suc (Suc 0)) (Suc (Suc 0)) long_iter []
     = Some (None, long_iter\<lparr>current := header_at 200, isEnd := True\<rparr>,
             [CallCtxErr, CallHeaderByHash 100, CallHeaderByNumber (Some 200),
              CallOnBlocks (header_at 100) (header_at 200) [] None,
              CallCtxErr, CallHeaderByHash 200, CallHeaderByNumber (Some 300),
              CallOnBlocks (header_at 200) (header_at 300) [EndIter] None,
              CallCtxErr])"
proof -
  let ?tr = "[CallCtxErr, CallHeaderByHash 100, CallHeaderByNumber (Some 200),
              CallOnBlocks (header_at 100) (header_at 200) [] None]"
  let ?tr1 = "?tr @ [CallCtxErr, CallHeaderByHash 200, CallHeaderByNumber (Some 300)]"
  have reach: "loop_state (Suc 0) (retryInterval long_iter) (iterFunc_of long_iter) long_iter []
      = Some (long_iter\<lparr>current := header_at 200\<rparr>, ?tr)"
    by (simp add: long_iter_def iterFunc_of_def epoch_defs ex_simps ctx_simps)
  have live: "ctxErr (ctx (long_iter\<lparr>current := header_at 200\<rparr>)) (length ?tr) = None"
    by (simp add: long_iter_def ex_simps ctx_simps)
  have epoch: "iterFunc_of long_iter (long_iter\<lparr>current := header_at 200\<rparr>) (?tr @ [CallCtxErr])
      = (EOF, long_iter\<lparr>current := header_at 200, isEnd := True\<rparr>,
         ?tr1 @ [CallOnBlocks (header_at 200) (header_at 300) [EndIter] None])"
    by (simp add: long_iter_def iterFunc_of_def epoch_defs ex_simps ctx_simps end_iter_def)
  have ended: "EndIter \<in> set [EndIter]" by simp
  from C6_end_iteration_honoured [OF reach live epoch ended] reach show ?thesis
    by (simp add: long_iter_def ex_simps ctx_simps)
qed

subsection \<open>What Iter returns\<close>

text \<open>
  Claim C9, as stated (after the retry wrapper has returned, \<^verbatim>\<open>Iter\<close> returns the
  cancellation error if a cancellation is pending), is false when the wrapper returns an
  error: \<^verbatim>\<open>Iter\<close> returns that error without looking at the context. Here the callback
  returns a permanent error and the context is cancelled while the epoch runs.
\<close>

theorem C9_counterexample:
  "Iter (Suc 0) (Suc 0) (example_iter\<lparr>ctx := cancelled_at 2, onBlocks := cb_permanent\<rparr>) []
     = Some (Some (Err ''boom''), example_iter\<lparr>ctx := cancelled_at 2, onBlocks := cb_permanent\<rparr>,
         [CallCtxErr, CallHeaderByHash 100, CallHeaderByNumber (Some 200),
          CallOnBlocks (header_at 100) (header_at 200) [] (Some (Permanent (Err ''boom'')))])
   \<and> ctxErr (cancelled_at 2) 4 = Some Canceled
   \<and> Err ''boom'' \<noteq> Canceled"
  by (simp add: driver_simps epoch_defs ex_simps Canceled_def)

text \<open>
  Claim C9, amended. Whenever the driver is at the top of its loop and the context is
  cancelled, no epoch is attempted, nothing is retried and \<^verbatim>\<open>Iter\<close> returns the
  cancellation error. And every run of \<^verbatim>\<open>Iter\<close> that returns ends in one of three ways:
  on a cancellation seen at the top of the loop, with the cancellation error; on an epoch
  that signals range-exhausted, with the context's error at that time (nil unless a
  cancellation is pending); or on an epoch error on which the retry gives up (a permanent
  error, or any error when the interval is \<^verbatim>\<open>backoff.Stop\<close>), with that error, whether or
  not a cancellation is pending.
\<close>

theorem C9_Iter_result:
  "(\<forall>k i tr c.
      loop_state k (retryInterval i0) (iterFunc_of i0) i0 tr0 = Some (i, tr)
      \<and> ctxErr (ctx i) (length tr) = Some c
      \<longrightarrow> Iter (Suc k) (Suc k) i0 tr0 = Some (Some c, i, tr @ [CallCtxErr, CallCtxErr]))
   \<and> (\<forall>m n res i' tr'.
      Iter m n i0 tr0 = Some (res, i', tr')
      \<longrightarrow> (\<exists>k i tr.
             loop_state k (retryInterval i0) (iterFunc_of i0) i0 tr0 = Some (i, tr)
             \<and> (if ctxErr (ctx i) (length tr) \<noteq> None
                 then res = ctxErr (ctx i) (length tr) \<and> i' = i
                    \<and> tr' = tr @ [CallCtxErr, CallCtxErr]
                 else (\<exists>err tr1.
                         iterFunc_of i0 i (tr @ [CallCtxErr]) = (err, i', tr1)
                         \<and> (if is_EOF err
                             then res = ctxErr (ctx i0) (length tr1) \<and> tr' = tr1 @ [CallCtxErr]
                             else \<not> is_errContinue err \<and> tr' = tr1
                                \<and> (case as_Permanent err of
                                      Some inner \<Rightarrow> res = Some inner
                                    | None \<Rightarrow> retryInterval i0 = Stop \<and> res = Some err))))))"
proof (intro conjI allI impI)
  fix k i tr c
  assume a: "loop_state k (retryInterval i0) (iterFunc_of i0) i0 tr0 = Some (i, tr)
      \<and> ctxErr (ctx i) (length tr) = Some c"
  then have st: "loop_state k (retryInterval i0) (iterFunc_of i0) i0 tr0 = Some (i, tr)"
    and c: "ctxErr (ctx i) (length tr) = Some c" by simp_all
  from c have lr: "last_round (retryInterval i0) (iterFunc_of i0) i tr
      = Some (None, i, tr @ [CallCtxErr])"
    by (simp add: last_round_def)
  have "ctx i = ctx i0" using loop_state_ctx [OF st] .
  with c have "ctxErr (ctx i0) (length tr) = Some c" by simp
  then have "ctxErr (ctx i0) (Suc (length tr)) = Some c"
    by (rule ctxErr_mono) simp
  with Iter_rounds [OF st lr]
  show "Iter (Suc k) (Suc k) i0 tr0 = Some (Some c, i, tr @ [CallCtxErr, CallCtxErr])"
    by simp
next
  fix m n res i' tr'
  assume run: "Iter m n i0 tr0 = Some (res, i', tr')"
  let ?d = "retryInterval i0" and ?f = "iterFunc_of i0"
  from run obtain e1 i1 tr1 where r: "Retry m n ?d ?f i0 tr0 = Some (e1, i1, tr1)"
    by (auto simp: Iter_def split: option.splits)
  from Retry_rounds [OF r] obtain k i tr where
    st: "loop_state k ?d ?f i0 tr0 = Some (i, tr)"
    and lr: "last_round ?d ?f i tr = Some (e1, i1, tr1)"
    by blast
  have cx: "ctx i = ctx i0" "ctx i1 = ctx i0"
    using loop_state_ctx [OF st] last_round_ctx [OF lr] by simp_all
  have res: "(case e1 of Some err \<Rightarrow> res = Some err \<and> i' = i1 \<and> tr' = tr1
              | None \<Rightarrow> res = ctxErr (ctx i0) (length tr1) \<and> i' = i1 \<and> tr' = tr1 @ [CallCtxErr])"
    using run r cx by (cases e1) (auto simp: Iter_def)
  have "if ctxErr (ctx i) (length tr) \<noteq> None
        then res = ctxErr (ctx i) (length tr) \<and> i' = i \<and> tr' = tr @ [CallCtxErr, CallCtxErr]
        else (\<exists>err tr1.
                ?f i (tr @ [CallCtxErr]) = (err, i', tr1)
                \<and> (if is_EOF err
                    then res = ctxErr (ctx i0) (length tr1) \<and> tr' = tr1 @ [CallCtxErr]
                    else \<not> is_errContinue err \<and> tr' = tr1
                       \<and> (case as_Permanent err of
                             Some inner \<Rightarrow> res = Some inner
                           | None \<Rightarrow> ?d = Stop \<and> res = Some err)))"
  proof (cases "ctxErr (ctx i) (length tr)")
    case (Some c)
    with lr have "e1 = None" "i1 = i" "tr1 = tr @ [CallCtxErr]"
      by (simp_all add: last_round_def)
    moreover from Some cx have "ctxErr (ctx i0) (Suc (length tr)) = Some c"
      using ctxErr_mono [of "ctx i" "length tr" c "Suc (length tr)"] by simp
    ultimately show ?thesis using res Some by simp
  next
    case None
    obtain err i2 tr2 where ep: "?f i (tr @ [CallCtxErr]) = (err, i2, tr2)"
      by (cases "?f i (tr @ [CallCtxErr])")
    from lr None ep res show ?thesis
      by (auto simp: last_round_def split: if_splits option.splits)
  qed
  with st show "\<exists>k i tr.
             loop_state k ?d ?f i0 tr0 = Some (i, tr)
             \<and> (if ctxErr (ctx i) (length tr) \<noteq> None
                 then res = ctxErr (ctx i) (length tr) \<and> i' = i
                    \<and> tr' = tr @ [CallCtxErr, CallCtxErr]
                 else (\<exists>err tr1.
                         ?f i (tr @ [CallCtxErr]) = (err, i', tr1)
                         \<and> (if is_EOF err
                             then res = ctxErr (ctx i0) (length tr1) \<and> tr' = tr1 @ [CallCtxErr]
                             else \<not> is_errContinue err \<and> tr' = tr1
                                \<and> (case as_Permanent err of
                                      Some inner \<Rightarrow> res = Some inner
                                    | None \<Rightarrow> ?d = Stop \<and> res = Some err))))"
    by blast
qed

text \<open>The amended claim C9 at a context that is cancelled from the start, and at a run that
  ends on a permanent error of the callback.\<close>

theorem C9_witness:
  "loop_state 0 (retryInterval (example_iter\<lparr>ctx := cancelled_at 0\<rparr>))
       (iterFunc_of (example_iter\<lparr>ctx := cancelled_at 0\<rparr>)) (example_iter\<lparr>ctx := cancelled_at 0\<rparr>) []
     = Some (example_iter\<lparr>ctx := cancelled_at 0\<rparr>, [])
   \<and> ctxErr (ctx (example_iter\<lparr>ctx := cancelled_at 0\<rparr>)) (length ([] :: trace)) = Some Canceled
   \<and> Iter (Suc 0) (Suc 0) (example_iter\<lparr>ctx := cancelled_at 0\<rparr>) []
       = Some (Some Canceled, example_iter\<lparr>ctx := cancelled_at 0\<rparr>, [CallCtxErr, CallCtxErr])
   \<and> Iter (Suc 0) (Suc 0) (example_iter\<lparr>onBlocks := cb_permanent\<rparr>) []
       = Some (Some (Err ''boom''), example_iter\<lparr>onBlocks := cb_permanent\<rparr>,
               [CallCtxErr, CallHeaderByHash 100, CallHeaderByNumber (Some 200),
                CallOnBlocks (header_at 100) (header_at 200) [] (Some (Permanent (Err ''boom'')))])
   \<and> (\<exists>k i tr. loop_state k (retryInterval (example_iter\<lparr>onBlocks := cb_permanent\<rparr>))
                   (iterFunc_of (example_iter\<lparr>onBlocks := cb_permanent\<rparr>))
                   (example_iter\<lparr>onBlocks := cb_permanent\<rparr>) [] = Some (i, tr))"
proof -
  let ?i = "example_iter\<lparr>ctx := cancelled_at 0\<rparr>"
  let ?p = "example_iter\<lparr>onBlocks := cb_permanent\<rparr>"
  have st: "loop_state 0 (retryInterval ?i) (iterFunc_of ?i) ?i [] = Some (?i, [])"
    by simp
  have c: "ctxErr (ctx ?i) (length ([] :: trace)) = Some Canceled"
    by (simp add: ctx_simps)
  have run: "Iter (Suc 0) (Suc 0) ?p []
       = Some (Some (Err ''boom''), ?p,
               [CallCtxErr, CallHeaderByHash 100, CallHeaderByNumber (Some 200),
                CallOnBlocks (header_at 100) (header_at 200) [] (Some (Permanent (Err ''boom'')))])"
    by (simp add: driver_simps epoch_defs ex_simps)
  from C9_Iter_result [of ?p "[]", THEN conjunct2, rule_format, OF run]
  have ex: "\<exists>k i tr. loop_state k (retryInterval ?p) (iterFunc_of ?p) ?p [] = Some (i, tr)"
    by blast
  from C9_Iter_result [of ?i "[]", THEN conjunct1, rule_format, of 0 ?i "[]" Canceled] st c run ex
  show ?thesis
    by simp
qed

section \<open>Properties of a forward run\<close>

lemma batch_heights_append:
  "batch_heights (xs @ ys) = batch_heights xs @ batch_heights ys"
  by (induction xs rule: batch_heights.induct) simp_all

lemma fwd_batches_props:
  assumes "c < E" and "0 < B"
  shows "fwd_batches c E B \<noteq> []
       \<and> fst (hd (fwd_batches c E B)) = c
       \<and> snd (last (fwd_batches c E B)) = E
       \<and> (\<forall>k. Suc k < length (fwd_batches c E B) \<longrightarrow>
             fst (fwd_batches c E B ! Suc k) = snd (fwd_batches c E B ! k)
             \<and> snd (fwd_batches c E B ! k) = fst (fwd_batches c E B ! k) + B)
       \<and> fst (last (fwd_batches c E B)) < snd (last (fwd_batches c E B))
       \<and> snd (last (fwd_batches c E B)) \<le> fst (last (fwd_batches c E B)) + B"
  using assms
proof (induction c E B rule: fwd_batches.induct)
  case (1 c E B)
  show ?case
  proof (cases "E \<le> c + B")
    case True
    with "1.prems" have "fwd_batches c E B = [(c, E)]"
      by (subst fwd_batches.simps) simp
    with "1.prems" True show ?thesis by simp
  next
    case False
    with "1.prems" have eq: "fwd_batches c E B = (c, c + B) # fwd_batches (c + B) E B"
      by (subst fwd_batches.simps) simp
    from False "1.prems" have lt: "c + B < E" by simp
    from "1.IH" [OF _ False lt "1.prems"(2)] "1.prems" have IH:
      "fwd_batches (c + B) E B \<noteq> []"
      "fst (hd (fwd_batches (c + B) E B)) = c + B"
      "snd (last (fwd_batches (c + B) E B)) = E"
      "\<And>k. Suc k < length (fwd_batches (c + B) E B) \<Longrightarrow>
             fst (fwd_batches (c + B) E B ! Suc k) = snd (fwd_batches (c + B) E B ! k)
             \<and> snd (fwd_batches (c + B) E B ! k) = fst (fwd_batches (c + B) E B ! k) + B"
      "fst (last (fwd_batches (c + B) E B)) < snd (last (fwd_batches (c + B) E B))"
      "snd (last (fwd_batches (c + B) E B)) \<le> fst (last (fwd_batches (c + B) E B)) + B"
      by simp_all
    have chain: "fst (((c, c + B) # fwd_batches (c + B) E B) ! Suc k)
                   = snd (((c, c + B) # fwd_batches (c + B) E B) ! k)
               \<and> snd (((c, c + B) # fwd_batches (c + B) E B) ! k)
                   = fst (((c, c + B) # fwd_batches (c + B) E B) ! k) + B"
      if "Suc k < length ((c, c + B) # fwd_batches (c + B) E B)" for k
    proof (cases k)
      case 0
      with IH(1,2) show ?thesis by (simp add: hd_conv_nth)
    next
      case (Suc j)
      with that IH(4) [of j] show ?thesis by simp
    qed
    from IH chain show ?thesis
      unfolding eq by simp
  qed
qed

lemma forward_epoch_quiet:
  assumes eh: "endHeight i = Some E" and ne: "\<not> isEnd i"
      and found: "HeaderByHash (client i) (length tr) (Hash (current i)) = (Some hdr, None)"
      and c: "Uint64 (Number (current i)) < E"
      and fb: "forwardBoundary (Uint64 (Number (current i))) (blocksReadPerEpoch i) E = (b, final)"
      and lookup: "HeaderByNumber (client i) (Suc (length tr)) (Some (SetUint64 b)) = Inr endHeader"
      and cb: "onBlocks i (Suc (Suc (length tr))) (current i) endHeader = ([], None)"
  shows "iter i tr = (if final then EOF else ErrContinue, i\<lparr>current := endHeader\<rparr>,
                      tr @ [CallHeaderByHash (Hash (current i)), CallHeaderByNumber (Some (SetUint64 b)),
                            CallOnBlocks (current i) endHeader [] None])"
  using c ne
  by (simp add: iter_def ensureCurrentNotReorged_found [OF found] eh fb lookup cb
      call_onBlocks_def not_le [symmetric])

lemma forwardBoundary_nat:
  fixes c B E :: uint64
  assumes "unat c + unat B < 2 ^ 64"
  shows "unat (c + B) = unat c + unat B"
    and "forwardBoundary c B E = (if unat E \<le> unat c + unat B then (E, True) else (c + B, False))"
proof -
  from assms show u: "unat (c + B) = unat c + unat B"
    by (simp add: unat_add_lem [THEN iffD1])
  show "forwardBoundary c B E = (if unat E \<le> unat c + unat B then (E, True) else (c + B, False))"
    by (simp add: forwardBoundary_def Let_def word_le_nat_alt u)
qed

lemma forward_run:
  assumes eh: "endHeight i = Some E" and ne: "\<not> isEnd i"
      and B: "blocksReadPerEpoch i = B" and nc: "cancelAt (ctx i) = None"
      and noreorg: "\<forall>t h. \<exists>hdr. HeaderByHash (client i) t h = (Some hdr, None)"
      and honest: "\<forall>t n. \<exists>hdr. HeaderByNumber (client i) t (Some (SetUint64 n)) = Inr hdr
                              \<and> Uint64 (Number hdr) = n"
      and cb: "\<forall>t s e. onBlocks i t s e = ([], None)"
      and pos: "0 < B" and small: "unat E + unat B < 2 ^ 64"
      and cur: "Uint64 (Number (current i)) = c" and le: "c \<le> E"
  shows "\<exists>n i' tr'. iterOp n iter i tr = Some (None, i', tr')
           \<and> batch_heights tr' = batch_heights tr @ fwd_batches (unat c) (unat E) (unat B)
           \<and> Uint64 (Number (current i')) = E"
  using eh ne B nc noreorg honest cb cur le
proof (induction "unat E - unat c" arbitrary: i tr c rule: less_induct)
  case less
  note eh = less.prems(1) and ne = less.prems(2) and B = less.prems(3) and nc = less.prems(4)
    and noreorg = less.prems(5) and honest = less.prems(6) and cb = less.prems(7)
    and cur = less.prems(8) and le = less.prems(9)
  have live: "ctxErr (ctx i) t = None" for t
    by (simp add: ctxErr_def nc)
  from noreorg obtain hdr where
    found: "HeaderByHash (client i) (length (tr @ [CallCtxErr])) (Hash (current i)) = (Some hdr, None)"
    by blast
  show ?case
  proof (cases "c = E")
    case True
    have "iter i (tr @ [CallCtxErr])
            = (EOF, i, (tr @ [CallCtxErr]) @ [CallHeaderByHash (Hash (current i))])"
      using cur True
      by (simp add: iter_def ensureCurrentNotReorged_found [OF found] eh)
    then have "iterOp (Suc 0) iter i tr
            = Some (None, i, (tr @ [CallCtxErr]) @ [CallHeaderByHash (Hash (current i))])"
      by (simp add: live)
    moreover have "fwd_batches (unat c) (unat E) (unat B) = []"
      using True by (subst fwd_batches.simps) simp
    ultimately show ?thesis
      using cur True by (intro exI conjI) (assumption, simp_all add: batch_heights_append)
  next
    case False
    with le have lt: "c < E" by simp
    then have ltn: "unat c < unat E" by (simp add: word_less_nat_alt)
    with small have sm: "unat c + unat B < 2 ^ 64" by simp
    note fbn = forwardBoundary_nat [OF sm]
    from pos have posn: "0 < unat B" by (simp add: word_less_nat_alt)
    define b where "b = (if unat E \<le> unat c + unat B then E else c + B)"
    define final where "final = (unat E \<le> unat c + unat B)"
    have fb: "forwardBoundary (Uint64 (Number (current i))) (blocksReadPerEpoch i) E = (b, final)"
      by (simp add: cur B fbn(2) b_def final_def)
    from honest obtain endHeader where
      lookup: "HeaderByNumber (client i) (Suc (length (tr @ [CallCtxErr]))) (Some (SetUint64 b))
                 = Inr endHeader"
      and hb: "Uint64 (Number endHeader) = b"
      by blast
    from cb have cb1: "onBlocks i (Suc (Suc (length (tr @ [CallCtxErr])))) (current i) endHeader
                         = ([], None)"
      by simp
    let ?tr1 = "(tr @ [CallCtxErr]) @ [CallHeaderByHash (Hash (current i)),
                  CallHeaderByNumber (Some (SetUint64 b)), CallOnBlocks (current i) endHeader [] None]"
    let ?i1 = "i\<lparr>current := endHeader\<rparr>"
    have lt': "Uint64 (Number (current i)) < E" using cur lt by simp
    have ep: "iter i (tr @ [CallCtxErr]) = (if final then EOF else ErrContinue, ?i1, ?tr1)"
      by (rule forward_epoch_quiet [OF eh ne found lt' fb lookup cb1])
    have bh: "batch_heights ?tr1 = batch_heights tr @ [(unat c, unat b)]"
      by (simp add: batch_heights_append cur hb)
    show ?thesis
    proof (cases final)
      case True
      then have b: "b = E" by (simp add: b_def final_def)
      from ep True have "iterOp (Suc 0) iter i tr = Some (None, ?i1, ?tr1)"
        by (simp add: live)
      moreover have "fwd_batches (unat c) (unat E) (unat B) = [(unat c, unat E)]"
        using True ltn posn by (subst fwd_batches.simps) (simp add: final_def)
      ultimately show ?thesis
        using bh b hb by (intro exI conjI) (assumption, simp_all)
    next
      case nf: False
      then have b: "b = c + B" and bn: "unat b = unat c + unat B" and blt: "unat b < unat E"
        by (simp_all add: b_def final_def fbn(1))
      have m: "unat E - unat b < unat E - unat c"
        using bn blt posn by simp
      have ble: "b \<le> E" using blt by (simp add: word_le_nat_alt)
      from less.hyps [OF m, of ?i1 ?tr1] eh ne B nc noreorg honest cb hb ble
      obtain n i' tr' where
        run: "iterOp n iter ?i1 ?tr1 = Some (None, i', tr')"
        and bh': "batch_heights tr' = batch_heights ?tr1 @ fwd_batches (unat b) (unat E) (unat B)"
        and fin: "Uint64 (Number (current i')) = E"
        by auto
      from ep nf run have "iterOp (Suc n) iter i tr = Some (None, i', tr')"
        by (simp add: live)
      moreover have "fwd_batches (unat c) (unat E) (unat B)
                       = (unat c, unat b) # fwd_batches (unat b) (unat E) (unat B)"
        using nf ltn posn bn by (subst fwd_batches.simps) (simp add: final_def)
      ultimately show ?thesis
        using bh bh' fin by (intro exI conjI) (assumption, simp_all)
    qed
  qed
qed

lemma zero_batch_epoch:
  "iter zero_batch_iter tr
     = (ErrContinue, zero_batch_iter,
        tr @ [CallHeaderByHash 100, CallHeaderByNumber (Some 100),
              CallOnBlocks (header_at 100) (header_at 100) [] None])"
  by (simp add: zero_batch_iter_def epoch_defs ex_simps)

lemma zero_batch_iterOp:
  "iterOp n iter zero_batch_iter tr = None"
proof (induction n arbitrary: tr)
  case 0
  show ?case by simp
next
  case (Suc n)
  have "ctxErr (ctx zero_batch_iter) (length tr) = None"
    by (simp add: zero_batch_iter_def example_iter_def ctx_simps)
  then show ?case
    by (simp add: zero_batch_epoch Suc.IH)
qed

text \<open>With batch size 0 the driver never returns, whatever the number of rounds.\<close>

lemma zero_batch_never_returns:
  "Iter m n zero_batch_iter [] = None"
proof -
  have "\<not> reverse zero_batch_iter"
    by (simp add: zero_batch_iter_def example_iter_def)
  then show ?thesis
    by (cases m) (simp_all add: Iter_def iterFunc_of_def zero_batch_iterOp)
qed

text \<open>
  Claim C3, as stated (for every start \<open>S\<close>, end \<open>E\<close> and batch size \<open>B\<close> the batches chain from
  \<open>S\<close> to \<open>E\<close>), is false. With batch size 0 every epoch hands the callback the batch from
  100 to 100, leaves the iterator as it was and signals continue, so that \<^verbatim>\<open>Iter\<close> never
  returns (lemma \<open>zero_batch_never_returns\<close>) and no batch ends at \<open>E\<close>. With a batch size for which the sum of the cursor and
  the batch size wraps around, here \<open>2^64 - 1\<close>, the first batch of a run from 1 to 3 goes
  from height 1 down to height 0.
\<close>

theorem C3_counterexample:
  "iter zero_batch_iter []
       = (ErrContinue, zero_batch_iter,
          [CallHeaderByHash 100, CallHeaderByNumber (Some 100),
           CallOnBlocks (header_at 100) (header_at 100) [] None])
   \<and> Iter (Suc 0) (Suc (Suc 0)) wrapping_iter []
       = Some (None, wrapping_iter\<lparr>current := header_at 3\<rparr>,
               [CallCtxErr, CallHeaderByHash 1, CallHeaderByNumber (Some 0),
                CallOnBlocks (header_at 1) (header_at 0) [] None,
                CallCtxErr, CallHeaderByHash 0, CallHeaderByNumber (Some 3),
                CallOnBlocks (header_at 0) (header_at 3) [] None,
                CallCtxErr])
   \<and> batch_heights
         [CallCtxErr, CallHeaderByHash 1, CallHeaderByNumber (Some 0),
          CallOnBlocks (header_at 1) (header_at 0) [] None,
          CallCtxErr, CallHeaderByHash 0, CallHeaderByNumber (Some 3),
          CallOnBlocks (header_at 0) (header_at 3) [] None,
          CallCtxErr]
       = [(1, 0), (0, 3)]"
proof (intro conjI)
  show "iter zero_batch_iter []
       = (ErrContinue, zero_batch_iter,
          [CallHeaderByHash 100, CallHeaderByNumber (Some 100),
           CallOnBlocks (header_at 100) (header_at 100) [] None])"
    using zero_batch_epoch [of "[]"] by simp
next
  show "Iter (Suc 0) (Suc (Suc 0)) wrapping_iter []
       = Some (None, wrapping_iter\<lparr>current := header_at 3\<rparr>,
               [CallCtxErr, CallHeaderByHash 1, CallHeaderByNumber (Some 0),
                CallOnBlocks (header_at 1) (header_at 0) [] None,
                CallCtxErr, CallHeaderByHash 0, CallHeaderByNumber (Some 3),
                CallOnBlocks (header_at 0) (header_at 3) [] None,
                CallCtxErr])"
    by (simp add: wrapping_iter_def driver_simps epoch_defs ex_simps word_le_nat_alt)
next
  show "batch_heights
         [CallCtxErr, CallHeaderByHash 1, CallHeaderByNumber (Some 0),
          CallOnBlocks (header_at 1) (header_at 0) [] None,
          CallCtxErr, CallHeaderByHash 0, CallHeaderByNumber (Some 3),
          CallOnBlocks (header_at 0) (header_at 3) [] None,
          CallCtxErr]
       = [(1, 0), (0, 3)]"
    by (simp add: header_at_simps Uint64_def)
qed

text \<open>
  Claim C3, amended. Take a forward iterator with end height \<open>E\<close>, cursor at height
  \<open>S < E\<close>, batch size \<open>B \<ge> 1\<close> with \<open>E + B < 2^64\<close>, a context that is never cancelled, an
  accessor that finds every hash and returns at every height a header of that height, and
  a callback that always returns nil and uses neither capability. Then \<^verbatim>\<open>Iter\<close> returns
  nil, and the batches handed to the callback are not empty and chain without gaps: the
  first starts at \<open>S\<close>, each next one starts where the one before ended, the last ends at
  \<open>E\<close>, every batch but the last spans exactly \<open>B\<close>, and the last spans at least 1 and at
  most \<open>B\<close>.
\<close>

theorem C3_forward_batches_chain:
  assumes fwd: "\<not> reverse i" and eh: "endHeight i = Some E" and ne: "\<not> isEnd i"
      and nc: "cancelAt (ctx i) = None"
      and noreorg: "\<forall>t h. \<exists>hdr. HeaderByHash (client i) t h = (Some hdr, None)"
      and honest: "\<forall>t n. \<exists>hdr. HeaderByNumber (client i) t (Some (SetUint64 n)) = Inr hdr
                              \<and> Uint64 (Number hdr) = n"
      and cb: "\<forall>t s e. onBlocks i t s e = ([], None)"
      and pos: "0 < blocksReadPerEpoch i"
      and small: "unat E + unat (blocksReadPerEpoch i) < 2 ^ 64"
      and cur: "Uint64 (Number (current i)) = S" and lt: "S < E"
  shows "\<exists>n i' tr' ps.
           Iter (Suc 0) n i tr = Some (None, i', tr')
         \<and> batch_heights tr' = batch_heights tr @ ps
         \<and> ps \<noteq> [] \<and> fst (hd ps) = unat S \<and> snd (last ps) = unat E
         \<and> (\<forall>k. Suc k < length ps \<longrightarrow>
               fst (ps ! Suc k) = snd (ps ! k)
               \<and> snd (ps ! k) = fst (ps ! k) + unat (blocksReadPerEpoch i))
         \<and> fst (last ps) < snd (last ps)
         \<and> snd (last ps) \<le> fst (last ps) + unat (blocksReadPerEpoch i)"
proof -
  define B where "B = blocksReadPerEpoch i"
  from lt have le: "S \<le> E" by simp
  from forward_run [OF eh ne B_def [symmetric] nc noreorg honest cb pos [folded B_def]
      small [folded B_def] cur le, of tr]
  obtain n i' tr' where
    run: "iterOp n iter i tr = Some (None, i', tr')"
    and bh: "batch_heights tr' = batch_heights tr @ fwd_batches (unat S) (unat E) (unat B)"
    by blast
  have r: "Retry (Suc 0) n (retryInterval i) (iterFunc_of i) i tr = Some (None, i', tr')"
    using run fwd by (simp add: iterFunc_of_def Retry_Suc(2) del: Retry.simps)
  from Retry_rounds [OF r] obtain k i1 tr1 where
    "loop_state k (retryInterval i) (iterFunc_of i) i tr = Some (i1, tr1)"
    "last_round (retryInterval i) (iterFunc_of i) i1 tr1 = Some (None, i', tr')"
    by blast
  then have "ctx i' = ctx i"
    using loop_state_ctx last_round_ctx by metis
  then have "ctxErr (ctx i') (length tr') = None"
    by (simp add: ctxErr_def nc)
  with r have it: "Iter (Suc 0) n i tr = Some (None, i', tr' @ [CallCtxErr])"
    by (simp add: Iter_def del: Retry.simps)
  have bh': "batch_heights (tr' @ [CallCtxErr])
               = batch_heights tr @ fwd_batches (unat S) (unat E) (unat B)"
    using bh by (simp add: batch_heights_append)
  from lt pos have "unat S < unat E" "0 < unat B"
    by (simp_all add: word_less_nat_alt B_def)
  from fwd_batches_props [OF this] it bh' show ?thesis
    unfolding B_def by blast
qed

text \<open>The amended claim C3 at the scenario of the specification: the batches are
  100 to 200 and 200 to 250.\<close>

theorem C3_witness:
  "\<not> reverse example_iter \<and> endHeight example_iter = Some 250 \<and> \<not> isEnd example_iter
   \<and> blocksReadPerEpoch example_iter = 100
   \<and> Uint64 (Number (current example_iter)) = 100
   \<and> (\<exists>n i' tr' ps.
           Iter (Suc 0) n example_iter [] = Some (None, i', tr')
         \<and> batch_heights tr' = ps
         \<and> ps \<noteq> [] \<and> fst (hd ps) = 100 \<and> snd (last ps) = 250
         \<and> (\<forall>k. Suc k < length ps \<longrightarrow>
               fst (ps ! Suc k) = snd (ps ! k) \<and> snd (ps ! k) = fst (ps ! k) + 100)
         \<and> fst (last ps) < snd (last ps)
         \<and> snd (last ps) \<le> fst (last ps) + 100)
   \<and> Iter (Suc 0) (Suc (Suc 0)) example_iter []
       = Some (None, example_iter\<lparr>current := header_at 250\<rparr>,
               [CallCtxErr, CallHeaderByHash 100, CallHeaderByNumber (Some 200),
                CallOnBlocks (header_at 100) (header_at 200) [] None,
                CallCtxErr, CallHeaderByHash 200, CallHeaderByNumber (Some 250),
                CallOnBlocks (header_at 200) (header_at 250) [] None,
                CallCtxErr])"
proof -
  have h1: "\<not> reverse example_iter" "endHeight example_iter = Some 250" "\<not> isEnd example_iter"
    "cancelAt (ctx example_iter) = None"
    by (simp_all add: example_iter_def background_def)
  have h2: "\<forall>t h. \<exists>hdr. HeaderByHash (client example_iter) t h = (Some hdr, None)"
    by (simp add: example_iter_def stable_client_simps)
  have h3: "\<forall>t n. \<exists>hdr. HeaderByNumber (client example_iter) t (Some (SetUint64 n)) = Inr hdr
                              \<and> Uint64 (Number hdr) = n"
    by (simp add: example_iter_def stable_client_simps header_at_simps Uint64_def SetUint64_def)
  have h4: "\<forall>t s e. onBlocks example_iter t s e = ([], None)"
    by (simp add: example_iter_def cb_simps)
  have h5: "0 < blocksReadPerEpoch example_iter"
    "unat (250 :: uint64) + unat (blocksReadPerEpoch example_iter) < 2 ^ 64"
    "Uint64 (Number (current example_iter)) = 100" "(100 :: uint64) < 250"
    by (simp_all add: example_iter_def header_at_simps Uint64_def)
  have run: "Iter (Suc 0) (Suc (Suc 0)) example_iter []
       = Some (None, example_iter\<lparr>current := header_at 250\<rparr>,
               [CallCtxErr, CallHeaderByHash 100, CallHeaderByNumber (Some 200),
                CallOnBlocks (header_at 100) (header_at 200) [] None,
                CallCtxErr, CallHeaderByHash 200, CallHeaderByNumber (Some 250),
                CallOnBlocks (header_at 200) (header_at 250) [] None,
                CallCtxErr])"
    by (simp add: driver_simps epoch_defs ex_simps)
  from C3_forward_batches_chain [OF h1(1,2,3,4) h2 h3 h4 h5, of "[]"] h1 h5 run
  show ?thesis
    by (simp add: example_iter_def)
qed

end
